theory Spec2Isabelle
  imports Complex_Main "HOL-Library.Sublist" "HOL-Library.AList"
begin

section \<open>Python values shared by the three scripts\<close>

text \<open>
  The scripts are \<^verbatim>\<open>cost_estimator.py\<close>, \<open>cleanup.py\<close> and \<open>deploy.py\<close>.
  Python floats are modelled as exact reals, Python ints as \<open>int\<close>, \<open>str\<close> as
  \<open>string\<close>, and a \<open>dict\<close> whose iteration order is used as an association list in
  insertion order. A failed dictionary subscript raises \<open>KeyError\<close>.
\<close>

datatype py_error = KeyError string

definition subscript :: "(string \<times> 'v) list \<Rightarrow> string \<Rightarrow> py_error + 'v" where
  \<comment> \<open>\<open>d[k]\<close>\<close>
  "subscript d k = (case map_of d k of None \<Rightarrow> Inl (KeyError k) | Some v \<Rightarrow> Inr v)"

section \<open>The cost estimator\<close>

datatype DataVolume = LOW | MEDIUM | HIGH

text \<open>
  \<open>ServiceCost\<close> is the dataclass of the source. Its \<open>notes\<close> field is a text rendered
  from numbers (thousands separators, float \<open>repr\<close>); no cost depends on it and it is left
  out of the record.
\<close>

record ServiceCost =
  service_name :: string
  description :: string
  hourly_cost :: real
  daily_cost :: real
  monthly_cost :: real
  cost_components :: "(string \<times> real) list"

record volume_entry =
  records_per_month :: int
  glue_dpu_hours :: int
  embedding_requests :: int
  rag_queries_per_day :: int
  storage_gb :: int

record instance_config =
  instance_type :: string
  instance_hourly :: real
  instance_count :: int

text \<open>
  The estimator object: \<open>__init__\<close> stores the two arguments and two constant tables.
  The tables are the definitions \<open>env_multipliers\<close> and \<open>volume_config\<close>. The functions
  below take any record extending \<open>CostEstimator\<close>, so they can read these two fields
  only.
\<close>

record CostEstimator =
  environment :: string
  data_volume :: DataVolume

definition env_multipliers :: "(string \<times> real) list" where
  "env_multipliers = [(''dev'', 1.0), (''staging'', 1.5), (''prod'', 3.0)]"

fun volume_config :: "DataVolume \<Rightarrow> volume_entry" where
  "volume_config LOW =
     \<lparr>records_per_month = 100000, glue_dpu_hours = 10, embedding_requests = 100000,
      rag_queries_per_day = 100, storage_gb = 10\<rparr>"
| "volume_config MEDIUM =
     \<lparr>records_per_month = 1000000, glue_dpu_hours = 50, embedding_requests = 1000000,
      rag_queries_per_day = 1000, storage_gb = 100\<rparr>"
| "volume_config HIGH =
     \<lparr>records_per_month = 10000000, glue_dpu_hours = 200, embedding_requests = 10000000,
      rag_queries_per_day = 10000, storage_gb = 1000\<rparr>"

definition calculate_vpc_costs :: "'a CostEstimator_scheme \<Rightarrow> ServiceCost" where
  "calculate_vpc_costs self =
     \<lparr>service_name = ''Amazon VPC'',
      description = ''Virtual Private Cloud networking'',
      hourly_cost = 0.0, daily_cost = 0.0, monthly_cost = 0.0,
      cost_components =
        [(''vpc'', 0.0), (''subnets'', 0.0), (''route_tables'', 0.0), (''security_groups'', 0.0)]\<rparr>"

text \<open>
  Lines 125 to 128 of \<open>_calculate_nat_gateway_costs\<close>: the multiplier is read from the
  table (an environment outside the table raises \<open>KeyError\<close>) and then overwritten for
  \<open>prod\<close>.
\<close>

definition nat_gateway_multiplier :: "'a CostEstimator_scheme \<Rightarrow> py_error + real" where
  "nat_gateway_multiplier self =
     (case subscript env_multipliers (environment self) of
        Inl e \<Rightarrow> Inl e
      | Inr multiplier \<Rightarrow> Inr (if environment self = ''prod'' then 2.0 else multiplier))"

definition calculate_nat_gateway_costs :: "'a CostEstimator_scheme \<Rightarrow> py_error + ServiceCost" where
  "calculate_nat_gateway_costs self =
     (let hourly_rate = (0.045 :: real);
          data_processed_per_hour_gb = (0.5 :: real);
          data_rate = (0.045 :: real);
          hourly = hourly_rate + (data_processed_per_hour_gb * data_rate);
          daily = hourly * 24;
          monthly = daily * 30
      in case nat_gateway_multiplier self of
           Inl e \<Rightarrow> Inl e
         | Inr multiplier \<Rightarrow>
             Inr \<lparr>service_name = ''NAT Gateway'',
                  description = ''Network Address Translation for private subnets'',
                  hourly_cost = hourly * multiplier,
                  daily_cost = daily * multiplier,
                  monthly_cost = monthly * multiplier,
                  cost_components =
                    [(''hourly_charge'', 0.045 * multiplier),
                     (''data_processing'', data_processed_per_hour_gb * data_rate * multiplier)]\<rparr>)"

definition calculate_s3_costs :: "'a CostEstimator_scheme \<Rightarrow> ServiceCost" where
  "calculate_s3_costs self =
     (let config = volume_config (data_volume self);
          storage = real_of_int (storage_gb config);
          storage_cost_per_gb = (0.023 :: real);
          put_requests = records_per_month config * 2;
          get_requests = records_per_month config * 5;
          put_cost = (real_of_int put_requests / 1000) * 0.005;
          get_cost = (real_of_int get_requests / 1000) * 0.0004;
          monthly = (storage * storage_cost_per_gb) + put_cost + get_cost
      in \<lparr>service_name = ''Amazon S3'',
          description = ''Object storage for raw and processed data'',
          hourly_cost = monthly / 720, daily_cost = monthly / 30, monthly_cost = monthly,
          cost_components =
            [(''storage'', storage * storage_cost_per_gb),
             (''put_requests'', put_cost), (''get_requests'', get_cost)]\<rparr>)"

definition calculate_kms_costs :: "'a CostEstimator_scheme \<Rightarrow> ServiceCost" where
  "calculate_kms_costs self =
     (let config = volume_config (data_volume self);
          key_cost = (1.0 :: real);
          num_keys = (1 :: int);
          requests = records_per_month config * 3;
          request_cost = (real_of_int requests / 10000) * 0.03;
          monthly = (key_cost * real_of_int num_keys) + request_cost
      in \<lparr>service_name = ''AWS KMS'',
          description = ''Key Management Service for encryption'',
          hourly_cost = monthly / 720, daily_cost = monthly / 30, monthly_cost = monthly,
          cost_components =
            [(''key_storage'', key_cost * real_of_int num_keys), (''requests'', request_cost)]\<rparr>)"

definition calculate_glue_costs :: "'a CostEstimator_scheme \<Rightarrow> ServiceCost" where
  "calculate_glue_costs self =
     (let config = volume_config (data_volume self);
          dpu_hour_cost = (0.44 :: real);
          dpu_hours = glue_dpu_hours config;
          crawler_dpu_hour_cost = (0.44 :: real);
          crawler_hours = (2 :: int);
          catalog_storage = (0.0 :: real);
          monthly_etl = real_of_int dpu_hours * dpu_hour_cost;
          monthly_crawler = real_of_int (crawler_hours * 30) * crawler_dpu_hour_cost;
          monthly = monthly_etl + monthly_crawler
      in \<lparr>service_name = ''AWS Glue'',
          description = ''ETL jobs and data catalog'',
          hourly_cost = monthly / 720, daily_cost = monthly / 30, monthly_cost = monthly,
          cost_components =
            [(''etl_jobs'', monthly_etl), (''crawlers'', monthly_crawler),
             (''data_catalog'', catalog_storage)]\<rparr>)"

definition calculate_appflow_costs :: "'a CostEstimator_scheme \<Rightarrow> ServiceCost" where
  "calculate_appflow_costs self =
     (let config = volume_config (data_volume self);
          flow_run_cost = (0.001 :: real);
          runs_per_month = (30 * 24 :: int);
          gb_processed = real_of_int (storage_gb config) / 10;
          processing_cost = gb_processed * 0.02;
          monthly = (flow_run_cost * real_of_int runs_per_month) + processing_cost
      in \<lparr>service_name = ''Amazon AppFlow'',
          description = ''SaaS data integration'',
          hourly_cost = monthly / 720, daily_cost = monthly / 30, monthly_cost = monthly,
          cost_components =
            [(''flow_runs'', flow_run_cost * real_of_int runs_per_month),
             (''data_processing'', processing_cost)]\<rparr>)"

definition instance_configs :: "(string \<times> instance_config) list" where
  "instance_configs =
     [(''dev'', \<lparr>instance_type = ''t3.small.search'', instance_hourly = 0.036, instance_count = 1\<rparr>),
      (''staging'', \<lparr>instance_type = ''t3.medium.search'', instance_hourly = 0.073, instance_count = 2\<rparr>),
      (''prod'', \<lparr>instance_type = ''r6g.large.search'', instance_hourly = 0.167, instance_count = 3\<rparr>)]"

definition calculate_opensearch_costs :: "'a CostEstimator_scheme \<Rightarrow> py_error + ServiceCost" where
  "calculate_opensearch_costs self =
     (case subscript instance_configs (environment self) of
        Inl e \<Rightarrow> Inl e
      | Inr config \<Rightarrow>
          (let instance_monthly = instance_hourly config * 720 * real_of_int (instance_count config);
               storage = real_of_int (storage_gb (volume_config (data_volume self)));
               ebs_cost = storage * 0.135;
               monthly = instance_monthly + ebs_cost
           in Inr \<lparr>service_name = ''Amazon OpenSearch'',
                   description = ''Vector database for semantic search'',
                   hourly_cost = monthly / 720, daily_cost = monthly / 30, monthly_cost = monthly,
                   cost_components =
                     [(''instances'', instance_monthly), (''ebs_storage'', ebs_cost)]\<rparr>))"

definition calculate_lambda_costs :: "'a CostEstimator_scheme \<Rightarrow> ServiceCost" where
  "calculate_lambda_costs self =
     (let config = volume_config (data_volume self);
          requests_per_month = rag_queries_per_day config * 30;
          avg_duration_ms = (2000 :: int);
          memory_mb = (1024 :: int);
          gb_seconds = (real_of_int (requests_per_month * avg_duration_ms) / 1000)
                         * (real_of_int memory_mb / 1024);
          compute_cost = gb_seconds * 0.0000166667;
          request_cost = (real_of_int requests_per_month / 1000000) * 0.20;
          monthly = compute_cost + request_cost
      in \<lparr>service_name = ''AWS Lambda'',
          description = ''Serverless compute for RAG queries'',
          hourly_cost = monthly / 720, daily_cost = monthly / 30, monthly_cost = monthly,
          cost_components = [(''compute'', compute_cost), (''requests'', request_cost)]\<rparr>)"

definition calculate_api_gateway_costs :: "'a CostEstimator_scheme \<Rightarrow> ServiceCost" where
  "calculate_api_gateway_costs self =
     (let config = volume_config (data_volume self);
          requests_per_month = rag_queries_per_day config * 30;
          api_cost = (real_of_int requests_per_month / 1000000) * 3.50
      in \<lparr>service_name = ''Amazon API Gateway'',
          description = ''REST API endpoint'',
          hourly_cost = api_cost / 720, daily_cost = api_cost / 30, monthly_cost = api_cost,
          cost_components = [(''api_calls'', api_cost)]\<rparr>)"

definition calculate_bedrock_costs :: "'a CostEstimator_scheme \<Rightarrow> ServiceCost" where
  "calculate_bedrock_costs self =
     (let config = volume_config (data_volume self);
          embedding_tokens = embedding_requests config * 500;
          embedding_cost = (real_of_int embedding_tokens / 1000) * 0.0001;
          queries_per_month = rag_queries_per_day config * 30;
          input_tokens = queries_per_month * 3000;
          output_tokens = queries_per_month * 500;
          input_cost = (real_of_int input_tokens / 1000) * 0.003;
          output_cost = (real_of_int output_tokens / 1000) * 0.015;
          monthly = embedding_cost + input_cost + output_cost
      in \<lparr>service_name = ''Amazon Bedrock'',
          description = ''GenAI embeddings and text generation'',
          hourly_cost = monthly / 720, daily_cost = monthly / 30, monthly_cost = monthly,
          cost_components =
            [(''embeddings'', embedding_cost), (''claude_input'', input_cost),
             (''claude_output'', output_cost)]\<rparr>)"

definition calculate_cloudwatch_costs :: "'a CostEstimator_scheme \<Rightarrow> ServiceCost" where
  "calculate_cloudwatch_costs self =
     (let log_ingestion_gb = (5 :: int);
          log_storage_gb = (20 :: int);
          ingestion_cost = real_of_int log_ingestion_gb * 0.50;
          storage_cost = real_of_int log_storage_gb * 0.03;
          custom_metrics = (20 :: int);
          metrics_cost = real_of_int custom_metrics * 0.30;
          alarms = (5 :: int);
          alarm_cost = real_of_int alarms * 0.10;
          monthly = ingestion_cost + storage_cost + metrics_cost + alarm_cost
      in \<lparr>service_name = ''Amazon CloudWatch'',
          description = ''Monitoring and logging'',
          hourly_cost = monthly / 720, daily_cost = monthly / 30, monthly_cost = monthly,
          cost_components =
            [(''log_ingestion'', ingestion_cost), (''log_storage'', storage_cost),
             (''metrics'', metrics_cost), (''alarms'', alarm_cost)]\<rparr>)"

definition calculate_secrets_manager_costs :: "'a CostEstimator_scheme \<Rightarrow> ServiceCost" where
  "calculate_secrets_manager_costs self =
     (let num_secrets = (5 :: int);
          api_calls = (10000 :: int);
          secret_cost = real_of_int num_secrets * 0.40;
          api_cost = (real_of_int api_calls / 10000) * 0.05;
          monthly = secret_cost + api_cost
      in \<lparr>service_name = ''AWS Secrets Manager'',
          description = ''Secure credential storage'',
          hourly_cost = monthly / 720, daily_cost = monthly / 30, monthly_cost = monthly,
          cost_components = [(''secrets'', secret_cost), (''api_calls'', api_cost)]\<rparr>)"

text \<open>
  \<open>calculate_all_costs\<close> builds the dictionary in the order of its literal; the entries
  are evaluated in that order, so the first \<open>KeyError\<close> is the one of the NAT gateway.
\<close>

definition calculate_all_costs ::
  "'a CostEstimator_scheme \<Rightarrow> py_error + (string \<times> ServiceCost) list" where
  "calculate_all_costs self =
     (case calculate_nat_gateway_costs self of
        Inl e \<Rightarrow> Inl e
      | Inr nat_gateway \<Rightarrow>
          (case calculate_opensearch_costs self of
             Inl e \<Rightarrow> Inl e
           | Inr opensearch \<Rightarrow>
               Inr [(''vpc'', calculate_vpc_costs self),
                    (''nat_gateway'', nat_gateway),
                    (''s3'', calculate_s3_costs self),
                    (''kms'', calculate_kms_costs self),
                    (''glue'', calculate_glue_costs self),
                    (''appflow'', calculate_appflow_costs self),
                    (''opensearch'', opensearch),
                    (''lambda'', calculate_lambda_costs self),
                    (''api_gateway'', calculate_api_gateway_costs self),
                    (''bedrock'', calculate_bedrock_costs self),
                    (''cloudwatch'', calculate_cloudwatch_costs self),
                    (''secrets_manager'', calculate_secrets_manager_costs self)]))"







section \<open>Effects of the two orchestration scripts\<close>

text \<open>
  \<open>cleanup.py\<close> and \<open>deploy.py\<close> act on the outside world only: they call the cloud
  provider through boto3, touch the local file system, print, and read one line from the
  operator. The model makes each of these explicit.

  \<^item> An exception is a value: its class and the text \<open>str(e)\<close>. The classes are the ones
    the scripts' \<open>except\<close> clauses name, \<open>WaiterError\<close> (raised by a waiter that runs out
    of attempts) and one class for every other subclass of \<open>Exception\<close>. In botocore the
    service exceptions \<open>EntityNotFoundException\<close>, \<open>NoSuchBucket\<close> and
    \<open>BucketAlreadyOwnedByYou\<close> are subclasses of \<open>ClientError\<close>, and \<open>WaiterError\<close> is not.
  \<^item> The world is an oracle: the outcome of a call is a function of the calls made so far
    and of the call itself. The state of a run records the calls in order, so the provider
    may answer the same question differently after a deletion.
  \<^item> Terminal output is a list of events. The helper that printed a line (its colour and
    glyph) is kept as the style of the event; ANSI escape sequences inside a text printed
    by the bare \<open>print\<close> are dropped.
\<close>

datatype exn_class =
  ClientError | EntityNotFoundException | NoSuchBucket | BucketAlreadyOwnedByYou
  | WaiterError | OtherException

datatype exn = Exn (class_of: exn_class) (exn_str: string)

fun is_client_error :: "exn \<Rightarrow> bool" where
  \<comment> \<open>\<open>isinstance(e, ClientError)\<close>\<close>
  "is_client_error (Exn ClientError _) = True"
| "is_client_error (Exn EntityNotFoundException _) = True"
| "is_client_error (Exn NoSuchBucket _) = True"
| "is_client_error (Exn BucketAlreadyOwnedByYou _) = True"
| "is_client_error (Exn WaiterError _) = False"
| "is_client_error (Exn OtherException _) = False"

datatype style = HEADER | GREEN | WARNING | FAIL | CYAN | PLAIN

datatype event = Print style string | Prompt string | Sleep nat

record stack_description =
  StackStatus :: string
  Outputs :: "(string \<times> string) list"

record 'c world =
  w_unit :: "'c list \<Rightarrow> 'c \<Rightarrow> exn option"
  w_names :: "'c list \<Rightarrow> 'c \<Rightarrow> exn + string list"
  w_describe :: "'c list \<Rightarrow> 'c \<Rightarrow> exn + stack_description"
  w_bool :: "'c list \<Rightarrow> 'c \<Rightarrow> exn + bool"
  w_text :: "'c list \<Rightarrow> 'c \<Rightarrow> exn + string"
  w_utcnow :: "'c list \<Rightarrow> string \<Rightarrow> string"

record 'c io =
  calls :: "'c list"
  out :: "event list"

definition emit :: "event \<Rightarrow> ('c, 'a) io_scheme \<Rightarrow> ('c, 'a) io_scheme" where
  "emit ev st = st\<lparr>out := out st @ [ev]\<rparr>"

definition print_header :: "string \<Rightarrow> ('c, 'a) io_scheme \<Rightarrow> ('c, 'a) io_scheme" where
  "print_header message = emit (Print HEADER message)"

definition print_success :: "string \<Rightarrow> ('c, 'a) io_scheme \<Rightarrow> ('c, 'a) io_scheme" where
  "print_success message = emit (Print GREEN message)"

definition print_warning :: "string \<Rightarrow> ('c, 'a) io_scheme \<Rightarrow> ('c, 'a) io_scheme" where
  "print_warning message = emit (Print WARNING message)"

definition print_error :: "string \<Rightarrow> ('c, 'a) io_scheme \<Rightarrow> ('c, 'a) io_scheme" where
  "print_error message = emit (Print FAIL message)"

definition print_info :: "string \<Rightarrow> ('c, 'a) io_scheme \<Rightarrow> ('c, 'a) io_scheme" where
  "print_info message = emit (Print CYAN message)"

definition print_plain :: "string \<Rightarrow> ('c, 'a) io_scheme \<Rightarrow> ('c, 'a) io_scheme" where
  \<comment> \<open>the builtin \<open>print\<close>\<close>
  "print_plain message = emit (Print PLAIN message)"

definition call_unit ::
  "'c world \<Rightarrow> 'c \<Rightarrow> ('c, 'a) io_scheme \<Rightarrow> exn option \<times> ('c, 'a) io_scheme" where
  "call_unit w c st = (w_unit w (calls st) c, st\<lparr>calls := calls st @ [c]\<rparr>)"

definition call_names ::
  "'c world \<Rightarrow> 'c \<Rightarrow> ('c, 'a) io_scheme \<Rightarrow> (exn + string list) \<times> ('c, 'a) io_scheme" where
  "call_names w c st = (w_names w (calls st) c, st\<lparr>calls := calls st @ [c]\<rparr>)"

definition call_describe ::
  "'c world \<Rightarrow> 'c \<Rightarrow> ('c, 'a) io_scheme \<Rightarrow> (exn + stack_description) \<times> ('c, 'a) io_scheme" where
  "call_describe w c st = (w_describe w (calls st) c, st\<lparr>calls := calls st @ [c]\<rparr>)"

definition call_bool ::
  "'c world \<Rightarrow> 'c \<Rightarrow> ('c, 'a) io_scheme \<Rightarrow> (exn + bool) \<times> ('c, 'a) io_scheme" where
  "call_bool w c st = (w_bool w (calls st) c, st\<lparr>calls := calls st @ [c]\<rparr>)"

definition call_text ::
  "'c world \<Rightarrow> 'c \<Rightarrow> ('c, 'a) io_scheme \<Rightarrow> (exn + string) \<times> ('c, 'a) io_scheme" where
  "call_text w c st = (w_text w (calls st) c, st\<lparr>calls := calls st @ [c]\<rparr>)"

text \<open>Strings: Python's \<open>sub in s\<close>, \<open>str(n)\<close> of a length, and the project name.\<close>

fun contains :: "string \<Rightarrow> string \<Rightarrow> bool" where
  \<comment> \<open>\<open>contains sub s\<close> is \<open>sub in s\<close>\<close>
  "contains sub [] = (sub = [])"
| "contains sub (c # cs) = (prefix sub (c # cs) \<or> contains sub cs)"

fun str_of_nat :: "nat \<Rightarrow> string" where
  "str_of_nat n =
     (if n < 10 then [''0123456789'' ! n] else str_of_nat (n div 10) @ [''0123456789'' ! (n mod 10)])"

declare str_of_nat.simps [simp del]

definition project_name :: string where
  "project_name = ''housing-market-intel''"

section \<open>The resource cleaner (cleanup.py)\<close>

text \<open>
  The provider operations \<open>ResourceCleaner\<close> uses. \<open>EmptyBucket\<close> is
  \<open>bucket.object_versions.delete()\<close>; \<open>DescribeLogGroups\<close> is one run of the paginator
  over a name prefix, answering with the names of the log groups of all pages; the
  waiter's polling is the single call \<open>WaitStackDeleteComplete\<close>.
\<close>

datatype cleanup_call =
  ListBuckets
  | DescribeLogGroups string
  | DescribeStacks string
  | EmptyBucket string
  | GetJobs
  | DeleteJob string
  | GetCrawlers
  | StopCrawler string
  | DeleteCrawler string
  | GetTables string
  | DeleteTable string string
  | DeleteDatabase string
  | DeleteStack string
  | WaitStackDeleteComplete string
  | DeleteLogGroup string
  | DeleteBucket string

fun is_mutating :: "cleanup_call \<Rightarrow> bool" where
  "is_mutating (EmptyBucket _) = True"
| "is_mutating (DeleteJob _) = True"
| "is_mutating (StopCrawler _) = True"
| "is_mutating (DeleteCrawler _) = True"
| "is_mutating (DeleteTable _ _) = True"
| "is_mutating (DeleteDatabase _) = True"
| "is_mutating (DeleteStack _) = True"
| "is_mutating (DeleteLogGroup _) = True"
| "is_mutating (DeleteBucket _) = True"
| "is_mutating _ = False"

text \<open>
  The object \<open>self\<close> is split in two: the attributes \<open>__init__\<close> fixes
  (\<open>cleaner_config\<close>; \<open>project_name\<close> and \<open>stack_names\<close> are derived from them), and the
  attributes the phases assign, together with the calls made and the output printed
  (\<open>cleaner_state\<close>). The four lists of \<open>cleanup_summary\<close> are four fields.
\<close>

record cleaner_config =
  cl_environment :: string
  cl_region :: string
  dry_run :: bool
  cl_account_id :: string

record cleaner_state = "cleanup_call io" +
  buckets_to_delete :: "string list"
  log_groups_to_delete :: "string list"
  stacks_deleted :: "string list"
  buckets_emptied :: "string list"
  log_groups_deleted :: "string list"
  errors :: "string list"

definition initial_state :: cleaner_state where
  "initial_state =
     \<lparr>calls = [], out = [], buckets_to_delete = [], log_groups_to_delete = [],
      stacks_deleted = [], buckets_emptied = [], log_groups_deleted = [], errors = []\<rparr>"

definition stack_names :: "cleaner_config \<Rightarrow> string list" where
  "stack_names self =
     [project_name @ ''-'' @ cl_environment self @ ''-appflow'',
      project_name @ ''-'' @ cl_environment self @ ''-main'']"

subsection \<open>Phase 1: discovery\<close>

definition discover_buckets ::
  "cleaner_config \<Rightarrow> cleanup_call world \<Rightarrow> cleaner_state \<Rightarrow> cleaner_state" where
  "discover_buckets self w st =
     (case call_names w ListBuckets (print_info ''Discovering S3 buckets...'' st) of
        (Inr names, st1) \<Rightarrow>
          (let name_prefix = project_name @ ''-'' @ cl_environment self;
               found = filter (prefix name_prefix) names;
               st2 = st1\<lparr>buckets_to_delete := found\<rparr>;
               st3 = print_plain (''  Found '' @ str_of_nat (length found) @ '' buckets to delete'') st2
           in fold (\<lambda>bucket. print_plain (''    - '' @ bucket)) found st3)
      | (Inl e, st1) \<Rightarrow>
          (print_warning (''Could not list buckets: '' @ exn_str e) st1)\<lparr>buckets_to_delete := []\<rparr>)"

fun collect_log_groups ::
  "cleanup_call world \<Rightarrow> string \<Rightarrow> string list \<Rightarrow> cleaner_state \<Rightarrow> exn option \<times> cleaner_state" where
  "collect_log_groups w env [] st = (None, st)"
| "collect_log_groups w env (p # ps) st =
     (case call_names w (DescribeLogGroups p) st of
        (Inl e, st1) \<Rightarrow> (Some e, st1)
      | (Inr names, st1) \<Rightarrow>
          collect_log_groups w env ps
            (st1\<lparr>log_groups_to_delete := log_groups_to_delete st1 @ filter (contains env) names\<rparr>))"

definition discover_log_groups ::
  "cleaner_config \<Rightarrow> cleanup_call world \<Rightarrow> cleaner_state \<Rightarrow> cleaner_state" where
  "discover_log_groups self w st =
     (let st1 = (print_info ''Discovering CloudWatch log groups...'' st)\<lparr>log_groups_to_delete := []\<rparr>;
          prefixes = [''/aws/glue/'' @ project_name, ''/aws/lambda/'' @ project_name,
                      ''/aws/opensearch/'' @ project_name]
      in case collect_log_groups w (cl_environment self) prefixes st1 of
           (None, st2) \<Rightarrow>
             print_plain (''  Found '' @ str_of_nat (length (log_groups_to_delete st2))
                          @ '' log groups to delete'') st2
         | (Some e, st2) \<Rightarrow>
             (print_warning (''Could not list log groups: '' @ exn_str e) st2)
               \<lparr>log_groups_to_delete := []\<rparr>)"

text \<open>
  The status check catches \<open>ClientError\<close> only: any other exception leaves
  \<open>_discover_resources\<close> and reaches the handler of \<open>cleanup\<close>.
\<close>

fun check_stacks ::
  "cleanup_call world \<Rightarrow> string list \<Rightarrow> cleaner_state \<Rightarrow> exn option \<times> cleaner_state" where
  "check_stacks w [] st = (None, st)"
| "check_stacks w (stack_name # rest) st =
     (case call_describe w (DescribeStacks stack_name) st of
        (Inr d, st1) \<Rightarrow>
          check_stacks w rest (print_plain (''  '' @ stack_name @ '': '' @ StackStatus d) st1)
      | (Inl e, st1) \<Rightarrow>
          if is_client_error e
          then check_stacks w rest (print_plain (''  '' @ stack_name @ '': NOT FOUND'') st1)
          else (Some e, st1))"

definition discover_resources ::
  "cleaner_config \<Rightarrow> cleanup_call world \<Rightarrow> cleaner_state \<Rightarrow> exn option \<times> cleaner_state" where
  "discover_resources self w st =
     check_stacks w (stack_names self)
       (print_info ''Checking CloudFormation stacks...''
         (discover_log_groups self w (discover_buckets self w st)))"

subsection \<open>Phase 2: emptying buckets\<close>

definition empty_bucket ::
  "cleaner_config \<Rightarrow> cleanup_call world \<Rightarrow> string \<Rightarrow> cleaner_state \<Rightarrow> cleaner_state" where
  \<comment> \<open>one iteration of the loop of \<open>_empty_s3_buckets\<close>\<close>
  "empty_bucket self w bucket_name st =
     (let st1 = print_info (''Emptying bucket: '' @ bucket_name) st
      in if dry_run self
         then print_plain (''  [DRY RUN] Would empty bucket: '' @ bucket_name) st1
         else case call_unit w (EmptyBucket bucket_name) st1 of
                (None, st2) \<Rightarrow>
                  (print_success (''  Emptied bucket: '' @ bucket_name) st2)
                    \<lparr>buckets_emptied := buckets_emptied st2 @ [bucket_name]\<rparr>
              | (Some e, st2) \<Rightarrow>
                  (let error_msg = ''Could not empty bucket '' @ bucket_name @ '': '' @ exn_str e
                   in (print_error (''  '' @ error_msg) st2)\<lparr>errors := errors st2 @ [error_msg]\<rparr>))"

definition empty_s3_buckets ::
  "cleaner_config \<Rightarrow> cleanup_call world \<Rightarrow> cleaner_state \<Rightarrow> cleaner_state" where
  "empty_s3_buckets self w st = fold (empty_bucket self w) (buckets_to_delete st) st"

subsection \<open>Phase 3: Glue jobs, crawlers and the catalog database\<close>

text \<open>
  Each of the two listing loops runs inside one \<open>try\<close>: the loop functions return the
  exception that ended them, and the caller prints the warning.
\<close>

fun delete_jobs ::
  "cleaner_config \<Rightarrow> cleanup_call world \<Rightarrow> string \<Rightarrow> string list \<Rightarrow> cleaner_state
   \<Rightarrow> exn option \<times> cleaner_state" where
  "delete_jobs self w job_prefix [] st = (None, st)"
| "delete_jobs self w job_prefix (job # rest) st =
     (if prefix job_prefix job
      then if dry_run self
           then delete_jobs self w job_prefix rest
                  (print_plain (''  [DRY RUN] Would delete job: '' @ job) st)
           else case call_unit w (DeleteJob job) st of
                  (Some e, st1) \<Rightarrow> (Some e, st1)
                | (None, st1) \<Rightarrow>
                    delete_jobs self w job_prefix rest (print_success (''  Deleted job: '' @ job) st1)
      else delete_jobs self w job_prefix rest st)"

definition cleanup_glue_jobs ::
  "cleaner_config \<Rightarrow> cleanup_call world \<Rightarrow> cleaner_state \<Rightarrow> cleaner_state" where
  "cleanup_glue_jobs self w st =
     (let job_prefix = project_name @ ''-'' @ cl_environment self
      in case call_names w GetJobs (print_info ''Deleting Glue jobs...'' st) of
           (Inl e, st1) \<Rightarrow> print_warning (''Could not clean Glue jobs: '' @ exn_str e) st1
         | (Inr jobs, st1) \<Rightarrow>
             (case delete_jobs self w job_prefix jobs st1 of
                (None, st2) \<Rightarrow> st2
              | (Some e, st2) \<Rightarrow> print_warning (''Could not clean Glue jobs: '' @ exn_str e) st2))"

definition stop_crawler ::
  "cleanup_call world \<Rightarrow> string \<Rightarrow> cleaner_state \<Rightarrow> cleaner_state" where
  \<comment> \<open>the inner \<open>try\<close> with its bare \<open>except: pass\<close>\<close>
  "stop_crawler w crawler st =
     (case call_unit w (StopCrawler crawler) st of
        (None, st1) \<Rightarrow> emit (Sleep 5) st1
      | (Some e, st1) \<Rightarrow> st1)"

fun delete_crawlers ::
  "cleaner_config \<Rightarrow> cleanup_call world \<Rightarrow> string \<Rightarrow> string list \<Rightarrow> cleaner_state
   \<Rightarrow> exn option \<times> cleaner_state" where
  "delete_crawlers self w job_prefix [] st = (None, st)"
| "delete_crawlers self w job_prefix (crawler # rest) st =
     (if prefix job_prefix crawler
      then if dry_run self
           then delete_crawlers self w job_prefix rest
                  (print_plain (''  [DRY RUN] Would delete crawler: '' @ crawler) st)
           else case call_unit w (DeleteCrawler crawler) (stop_crawler w crawler st) of
                  (Some e, st1) \<Rightarrow> (Some e, st1)
                | (None, st1) \<Rightarrow>
                    delete_crawlers self w job_prefix rest
                      (print_success (''  Deleted crawler: '' @ crawler) st1)
      else delete_crawlers self w job_prefix rest st)"

definition cleanup_glue_crawlers ::
  "cleaner_config \<Rightarrow> cleanup_call world \<Rightarrow> cleaner_state \<Rightarrow> cleaner_state" where
  "cleanup_glue_crawlers self w st =
     (let job_prefix = project_name @ ''-'' @ cl_environment self
      in case call_names w GetCrawlers (print_info ''Deleting Glue crawlers...'' st) of
           (Inl e, st1) \<Rightarrow> print_warning (''Could not clean Glue crawlers: '' @ exn_str e) st1
         | (Inr crawlers, st1) \<Rightarrow>
             (case delete_crawlers self w job_prefix crawlers st1 of
                (None, st2) \<Rightarrow> st2
              | (Some e, st2) \<Rightarrow>
                  print_warning (''Could not clean Glue crawlers: '' @ exn_str e) st2))"

fun delete_tables ::
  "cleanup_call world \<Rightarrow> string \<Rightarrow> string list \<Rightarrow> cleaner_state \<Rightarrow> exn option \<times> cleaner_state" where
  "delete_tables w db_name [] st = (None, st)"
| "delete_tables w db_name (table # rest) st =
     (case call_unit w (DeleteTable db_name table) st of
        (Some e, st1) \<Rightarrow> (Some e, st1)
      | (None, st1) \<Rightarrow> delete_tables w db_name rest st1)"

definition delete_all_tables ::
  "cleanup_call world \<Rightarrow> string \<Rightarrow> cleaner_state \<Rightarrow> cleaner_state" where
  \<comment> \<open>the inner \<open>try\<close> around \<open>get_tables\<close> and the table loop, with \<open>except: pass\<close>\<close>
  "delete_all_tables w db_name st =
     (case call_names w (GetTables db_name) st of
        (Inl e, st1) \<Rightarrow> st1
      | (Inr tables, st1) \<Rightarrow> snd (delete_tables w db_name tables st1))"

definition cleanup_glue_database ::
  "cleaner_config \<Rightarrow> cleanup_call world \<Rightarrow> cleaner_state \<Rightarrow> cleaner_state" where
  "cleanup_glue_database self w st =
     (let db_name = project_name @ ''_'' @ cl_environment self @ ''_db'';
          st1 = print_info (''Deleting Glue database: '' @ db_name) st
      in if dry_run self
         then print_plain (''  [DRY RUN] Would delete database: '' @ db_name) st1
         else case call_unit w (DeleteDatabase db_name) (delete_all_tables w db_name st1) of
                (None, st2) \<Rightarrow> print_success (''  Deleted database: '' @ db_name) st2
              | (Some e, st2) \<Rightarrow>
                  if class_of e = EntityNotFoundException
                  then print_info (''  Database not found: '' @ db_name) st2
                  else print_warning (''Could not delete database: '' @ exn_str e) st2)"

definition cleanup_glue_resources ::
  "cleaner_config \<Rightarrow> cleanup_call world \<Rightarrow> cleaner_state \<Rightarrow> cleaner_state" where
  "cleanup_glue_resources self w st =
     cleanup_glue_database self w (cleanup_glue_crawlers self w (cleanup_glue_jobs self w st))"

subsection \<open>Phase 4: stacks\<close>

definition stack_error :: "string \<Rightarrow> exn \<Rightarrow> cleaner_state \<Rightarrow> cleaner_state" where
  \<comment> \<open>the handler \<open>except Exception as e\<close> of \<open>_delete_stacks\<close>\<close>
  "stack_error stack_name e st =
     (let error_msg = ''Could not delete stack '' @ stack_name @ '': '' @ exn_str e
      in (print_error (''  '' @ error_msg) st)\<lparr>errors := errors st @ [error_msg]\<rparr>)"

definition delete_stack ::
  "cleaner_config \<Rightarrow> cleanup_call world \<Rightarrow> string \<Rightarrow> cleaner_state \<Rightarrow> cleaner_state" where
  \<comment> \<open>one iteration of the loop of \<open>_delete_stacks\<close>\<close>
  "delete_stack self w stack_name st =
     (let st0 = print_info (''Deleting stack: '' @ stack_name) st
      in if dry_run self
         then print_plain (''  [DRY RUN] Would delete stack: '' @ stack_name) st0
         else case call_describe w (DescribeStacks stack_name) st0 of
                (Inl e, st1) \<Rightarrow>
                  if is_client_error e
                  then print_info (''  Stack not found: '' @ stack_name) st1
                  else stack_error stack_name e st1
              | (Inr d, st1) \<Rightarrow>
                  (case call_unit w (DeleteStack stack_name) st1 of
                     (Some e, st2) \<Rightarrow> stack_error stack_name e st2
                   | (None, st2) \<Rightarrow>
                       (case call_unit w (WaitStackDeleteComplete stack_name)
                               (print_info (''  Waiting for stack deletion: '' @ stack_name) st2) of
                          (Some e, st3) \<Rightarrow> stack_error stack_name e st3
                        | (None, st3) \<Rightarrow>
                            (print_success (''  Deleted stack: '' @ stack_name) st3)
                              \<lparr>stacks_deleted := stacks_deleted st3 @ [stack_name]\<rparr>)))"

definition delete_stacks ::
  "cleaner_config \<Rightarrow> cleanup_call world \<Rightarrow> cleaner_state \<Rightarrow> cleaner_state" where
  "delete_stacks self w st = fold (delete_stack self w) (stack_names self) st"

subsection \<open>Phase 5: orphaned log groups and buckets\<close>

definition delete_log_group ::
  "cleaner_config \<Rightarrow> cleanup_call world \<Rightarrow> string \<Rightarrow> cleaner_state \<Rightarrow> cleaner_state" where
  "delete_log_group self w log_group st =
     (if dry_run self
      then print_plain (''  [DRY RUN] Would delete log group: '' @ log_group) st
      else case call_unit w (DeleteLogGroup log_group) st of
             (None, st1) \<Rightarrow>
               (print_success (''  Deleted log group: '' @ log_group) st1)
                 \<lparr>log_groups_deleted := log_groups_deleted st1 @ [log_group]\<rparr>
           | (Some e, st1) \<Rightarrow>
               print_warning (''  Could not delete log group '' @ log_group @ '': '' @ exn_str e) st1)"

definition delete_bucket ::
  "cleaner_config \<Rightarrow> cleanup_call world \<Rightarrow> string \<Rightarrow> cleaner_state \<Rightarrow> cleaner_state" where
  "delete_bucket self w bucket_name st =
     (if dry_run self
      then print_plain (''  [DRY RUN] Would delete bucket: '' @ bucket_name) st
      else case call_unit w (DeleteBucket bucket_name) st of
             (None, st1) \<Rightarrow> print_success (''  Deleted bucket: '' @ bucket_name) st1
           | (Some e, st1) \<Rightarrow>
               if class_of e = NoSuchBucket
               then print_info (''  Bucket already deleted: '' @ bucket_name) st1
               else print_warning
                      (''  Could not delete bucket '' @ bucket_name @ '': '' @ exn_str e) st1)"

definition cleanup_orphaned_resources ::
  "cleaner_config \<Rightarrow> cleanup_call world \<Rightarrow> cleaner_state \<Rightarrow> cleaner_state" where
  "cleanup_orphaned_resources self w st =
     (let st1 = fold (delete_log_group self w) (log_groups_to_delete st)
                  (print_info ''Deleting CloudWatch log groups...'' st)
      in fold (delete_bucket self w) (buckets_to_delete st1)
           (print_info ''Cleaning orphaned S3 buckets...'' st1))"

subsection \<open>The summary and the entry point\<close>

definition check_mark :: string where
  \<comment> \<open>U+2713 in UTF-8\<close>
  "check_mark = [CHR 0xE2, CHR 0x9C, CHR 0x93]"

definition ballot_x :: string where
  \<comment> \<open>U+2717 in UTF-8\<close>
  "ballot_x = [CHR 0xE2, CHR 0x9C, CHR 0x97]"

definition print_section ::
  "string \<Rightarrow> string list \<Rightarrow> cleaner_state \<Rightarrow> cleaner_state" where
  "print_section title items st =
     fold (\<lambda>item. print_plain (''  '' @ check_mark @ '' '' @ item)) items
       (print_plain ([CHR 0x0A] @ title @ '' ('' @ str_of_nat (length items) @ ''):'') st)"

definition print_summary :: "cleaner_config \<Rightarrow> cleaner_state \<Rightarrow> cleaner_state" where
  "print_summary self st =
     (let st1 = print_plain (replicate 40 CHR ''-'') (print_plain ([CHR 0x0A] @ ''Cleanup Results:'') st);
          st2 = print_section ''Stacks Deleted'' (stacks_deleted st1) st1;
          st3 = print_section ''Buckets Emptied'' (buckets_emptied st2) st2;
          st4 = print_section ''Log Groups Deleted'' (log_groups_deleted st3) st3;
          st5 = (if errors st4 \<noteq> []
                 then fold (\<lambda>error. print_plain (''  '' @ ballot_x @ '' '' @ error)) (errors st4)
                        (print_plain ([CHR 0x0A] @ ''Errors ('' @ str_of_nat (length (errors st4)) @ ''):'') st4)
                 else st4)
      in if dry_run self
         then print_plain ([CHR 0x0A] @ ''This was a DRY RUN - no resources were actually deleted'') st5
         else print_plain ([CHR 0x0A] @ ''Cleanup complete!'') st5)"

definition banner :: "cleaner_config \<Rightarrow> cleanup_call world \<Rightarrow> cleaner_state \<Rightarrow> cleaner_state" where
  "banner self w st =
     print_plain (''Timestamp: '' @ w_utcnow w (calls st) ''isoformat'')
       (print_plain (''Mode: '' @ (if dry_run self then ''DRY RUN'' else ''LIVE''))
         (print_plain (''Account: '' @ cl_account_id self)
           (print_plain (''Region: '' @ cl_region self)
             (print_plain (''Environment: '' @ cl_environment self)
               (print_header ''HOUSING MARKET INTELLIGENCE PLATFORM CLEANUP'' st)))))"

definition deletion_warning :: "cleaner_config \<Rightarrow> cleaner_state \<Rightarrow> cleaner_state" where
  "deletion_warning self st =
     fold print_plain
       [[CHR 0x0A] @ ''WARNING: This will DELETE all resources in '' @ cl_environment self @ ''!'',
        ''This includes:'',
        ''  - CloudFormation stacks and all resources'',
        ''  - S3 buckets and all data'',
        ''  - OpenSearch domain and indexes'',
        ''  - Glue jobs, databases, and crawlers'',
        ''  - CloudWatch log groups'']
       st"

definition run_phases ::
  "cleaner_config \<Rightarrow> cleanup_call world \<Rightarrow> cleaner_state \<Rightarrow> exn option \<times> cleaner_state" where
  \<comment> \<open>the \<open>try\<close> block of \<open>cleanup\<close> and its handler, which prints and re-raises\<close>
  "run_phases self w st =
     (case discover_resources self w (print_header ''PHASE 1: Resource Discovery'' st) of
        (Some e, st1) \<Rightarrow> (Some e, print_error (''Cleanup failed: '' @ exn_str e) st1)
      | (None, st1) \<Rightarrow>
          (let st2 = empty_s3_buckets self w (print_header ''PHASE 2: Empty S3 Buckets'' st1);
               st3 = cleanup_glue_resources self w (print_header ''PHASE 3: Clean Glue Resources'' st2);
               st4 = delete_stacks self w (print_header ''PHASE 4: Delete CloudFormation Stacks'' st3);
               st5 = cleanup_orphaned_resources self w
                       (print_header ''PHASE 5: Cleanup Orphaned Resources'' st4)
           in (None, print_summary self (print_header ''CLEANUP SUMMARY'' st5))))"

text \<open>
  \<open>cleanup force\<close>: \<open>typed\<close> is the line the operator enters if \<open>input\<close> is called. The
  result is the exception that leaves \<open>cleanup\<close>, if any, and the final state.
\<close>

definition confirmation_prompt :: "cleaner_config \<Rightarrow> string" where
  "confirmation_prompt self =
     [CHR 0x0A] @ ''Type '' @ [CHR 0x27] @ cl_environment self @ [CHR 0x27] @ '' to confirm deletion: ''"

definition cleanup ::
  "cleaner_config \<Rightarrow> cleanup_call world \<Rightarrow> bool \<Rightarrow> string \<Rightarrow> cleaner_state
   \<Rightarrow> exn option \<times> cleaner_state" where
  "cleanup self w force typed st =
     (let st1 = banner self w st
      in if \<not> force \<and> \<not> dry_run self
         then (let st2 = emit (Prompt (confirmation_prompt self)) (deletion_warning self st1)
               in if typed \<noteq> cl_environment self
                  then (None, print_warning ''Cleanup cancelled'' st2)
                  else run_phases self w st2)
         else run_phases self w st1)"

section \<open>Notions used to state the properties\<close>

text \<open>
  A run makes no mutating call when no call of its record is one of the mutating
  operations. The discovered resources are the two lists the discovery phase assigns.
  One state extends another when it has the earlier calls and output as a prefix.
\<close>

definition no_mutation :: "cleaner_state \<Rightarrow> bool" where
  "no_mutation st = list_all (\<lambda>c. \<not> is_mutating c) (calls st)"

definition discovered :: "cleaner_state \<Rightarrow> string list \<times> string list" where
  "discovered st = (buckets_to_delete st, log_groups_to_delete st)"

definition summary :: "cleaner_state \<Rightarrow> string list \<times> string list \<times> string list \<times> string list" where
  "summary st = (stacks_deleted st, buckets_emptied st, log_groups_deleted st, errors st)"

definition grows :: "('c, 'a) io_scheme \<Rightarrow> ('c, 'a) io_scheme \<Rightarrow> bool" where
  "grows st st' = (prefix (calls st) (calls st') \<and> prefix (out st) (out st'))"

text \<open>
  A sample account for concrete runs of the cleaner: one project bucket and one foreign
  bucket, two Glue log groups of which one belongs to dev, three jobs of which two carry
  the project prefix, one crawler, no catalog database, and the main stack (the appflow
  stack does not exist). Deleting the second job is refused; the main stack owns the
  bucket, so deleting the bucket after the stack finds it gone.
\<close>

definition sample_provider :: "cleanup_call world" where
  "sample_provider =
     \<lparr>w_unit = (\<lambda>history c.
         case c of
           DeleteJob job \<Rightarrow>
             if job = ''housing-market-intel-dev-load''
             then Some (Exn ClientError ''AccessDeniedException'') else None
         | DeleteDatabase db \<Rightarrow> Some (Exn EntityNotFoundException (''Database '' @ db @ '' not found''))
         | DeleteBucket b \<Rightarrow>
             if DeleteStack ''housing-market-intel-dev-main'' \<in> set history
             then Some (Exn NoSuchBucket ''The specified bucket does not exist'') else None
         | _ \<Rightarrow> None),
      w_names = (\<lambda>history c.
         case c of
           ListBuckets \<Rightarrow> Inr [''housing-market-intel-dev-raw'', ''unrelated-bucket'']
         | DescribeLogGroups p \<Rightarrow>
             if p = ''/aws/glue/housing-market-intel''
             then Inr [''/aws/glue/housing-market-intel-dev-etl'',
                       ''/aws/glue/housing-market-intel-prod-etl'']
             else Inr []
         | GetJobs \<Rightarrow> Inr [''housing-market-intel-dev-etl'', ''housing-market-intel-dev-load'',
                          ''housing-market-intel-dev-export'']
         | GetCrawlers \<Rightarrow> Inr [''housing-market-intel-dev-crawler'']
         | GetTables db \<Rightarrow> Inl (Exn EntityNotFoundException (''Database '' @ db @ '' not found''))
         | _ \<Rightarrow> Inr []),
      w_describe = (\<lambda>history c.
         if c = DescribeStacks ''housing-market-intel-dev-main''
            \<and> DeleteStack ''housing-market-intel-dev-main'' \<notin> set history
         then Inr \<lparr>StackStatus = ''CREATE_COMPLETE'', Outputs = []\<rparr>
         else Inl (Exn ClientError ''Stack does not exist'')),
      w_bool = (\<lambda>history c. Inr False),
      w_text = (\<lambda>history c. Inr []),
      w_utcnow = (\<lambda>history fmt. ''2025-01-15T12:00:00'')\<rparr>"

definition dev_cleaner :: "bool \<Rightarrow> cleaner_config" where
  "dev_cleaner dry =
     \<lparr>cl_environment = ''dev'', cl_region = ''us-east-1'', dry_run = dry,
      cl_account_id = ''123456789012''\<rparr>"

section \<open>Properties of the cost estimator\<close>

lemmas cost_defs = calculate_vpc_costs_def calculate_s3_costs_def calculate_kms_costs_def
  calculate_glue_costs_def calculate_appflow_costs_def calculate_lambda_costs_def
  calculate_api_gateway_costs_def calculate_bedrock_costs_def calculate_cloudwatch_costs_def
  calculate_secrets_manager_costs_def




















text \<open>
  C5. For environment prod and every data-volume tier, the multiplier applied to the
  hourly, daily and monthly NAT-gateway cost is exactly 2.0; the prod entry 3.0 of the
  generic multiplier table is not applied to it.
\<close>

theorem prod_nat_gateway_multiplier_is_2:
  "nat_gateway_multiplier \<lparr>environment = ''prod'', data_volume = v\<rparr> = Inr 2.0
   \<and> subscript env_multipliers ''prod'' = Inr 3.0
   \<and> map_sum id hourly_cost (calculate_nat_gateway_costs \<lparr>environment = ''prod'', data_volume = v\<rparr>)
       = Inr ((0.045 + 0.5 * 0.045) * 2.0)
   \<and> map_sum id daily_cost (calculate_nat_gateway_costs \<lparr>environment = ''prod'', data_volume = v\<rparr>)
       = Inr ((0.045 + 0.5 * 0.045) * 24 * 2.0)
   \<and> map_sum id monthly_cost (calculate_nat_gateway_costs \<lparr>environment = ''prod'', data_volume = v\<rparr>)
       = Inr ((0.045 + 0.5 * 0.045) * 24 * 30 * 2.0)
   \<and> map_sum id monthly_cost (calculate_nat_gateway_costs \<lparr>environment = ''prod'', data_volume = v\<rparr>)
       \<noteq> Inr ((0.045 + 0.5 * 0.045) * 24 * 30 * 3.0)"
  by (simp add: calculate_nat_gateway_costs_def nat_gateway_multiplier_def subscript_def
      env_multipliers_def)

text \<open>
  C6, as stated: for environment prod the NAT-gateway monthly cost equals
  (0.045 + 0.5 * 0.045) * 24 * 30 * 2.0 and that value equals 48.60 dollars. The code does
  compute that product, but the product is 97.20, not 48.60.
\<close>

theorem prod_nat_gateway_monthly_not_48_60:
  "map_sum id monthly_cost (calculate_nat_gateway_costs \<lparr>environment = ''prod'', data_volume = LOW\<rparr>)
     = Inr ((0.045 + 0.5 * 0.045) * 24 * 30 * 2.0)
   \<and> map_sum id monthly_cost (calculate_nat_gateway_costs \<lparr>environment = ''prod'', data_volume = LOW\<rparr>)
     \<noteq> Inr 48.60
   \<and> (0.045 + 0.5 * 0.045) * 24 * 30 * 2.0 \<noteq> (48.60 :: real)"
  by (simp add: calculate_nat_gateway_costs_def nat_gateway_multiplier_def subscript_def
      env_multipliers_def)

text \<open>
  C6, amended: for environment prod and any data-volume tier the NAT-gateway monthly cost
  equals (0.045 + 0.5 * 0.045) * 24 * 30 * 2.0, and that value equals 97.20 dollars.
\<close>

theorem prod_nat_gateway_monthly_is_97_20:
  "map_sum id monthly_cost (calculate_nat_gateway_costs \<lparr>environment = ''prod'', data_volume = v\<rparr>)
     = Inr ((0.045 + 0.5 * 0.045) * 24 * 30 * 2.0)
   \<and> (0.045 + 0.5 * 0.045) * 24 * 30 * 2.0 = (97.20 :: real)"
  by (simp add: calculate_nat_gateway_costs_def nat_gateway_multiplier_def subscript_def
      env_multipliers_def)

text \<open>
  C10. For every environment and data-volume tier, every \<open>ServiceCost\<close> returned by
  \<open>calculate_all_costs\<close> has daily cost 24 times its hourly cost and monthly cost 30
  times its daily cost, in exact real arithmetic.
\<close>

theorem service_totals_proportional:
  "calculate_all_costs est = Inr costs \<Longrightarrow> (k, sc) \<in> set costs \<Longrightarrow>
   daily_cost sc = 24 * hourly_cost sc \<and> monthly_cost sc = 30 * daily_cost sc"
  by (auto simp: calculate_all_costs_def calculate_nat_gateway_costs_def
      calculate_opensearch_costs_def cost_defs Let_def split: sum.splits)

theorem service_totals_proportional_witness:
  "\<exists>costs sc. calculate_all_costs \<lparr>environment = ''staging'', data_volume = MEDIUM\<rparr> = Inr costs
     \<and> length costs = 12
     \<and> (''nat_gateway'', sc) \<in> set costs
     \<and> hourly_cost sc \<noteq> 0
     \<and> daily_cost sc = 24 * hourly_cost sc \<and> monthly_cost sc = 30 * daily_cost sc"
proof -
  obtain costs where c: "calculate_all_costs \<lparr>environment = ''staging'', data_volume = MEDIUM\<rparr> = Inr costs"
    by (simp add: calculate_all_costs_def calculate_nat_gateway_costs_def nat_gateway_multiplier_def
        subscript_def env_multipliers_def calculate_opensearch_costs_def instance_configs_def Let_def)
  then obtain sc where len: "length costs = 12" and m: "(''nat_gateway'', sc) \<in> set costs"
    and nz: "hourly_cost sc \<noteq> 0"
    by (auto simp: calculate_all_costs_def calculate_nat_gateway_costs_def nat_gateway_multiplier_def
        subscript_def env_multipliers_def calculate_opensearch_costs_def instance_configs_def Let_def)
  from service_totals_proportional [OF c m] c len m nz show ?thesis
    by (intro exI [of _ costs] exI [of _ sc]) simp
qed

section \<open>Properties of the resource cleaner\<close>

lemmas io_defs = emit_def print_header_def print_success_def print_warning_def print_error_def
  print_info_def print_plain_def call_unit_def call_names_def call_describe_def call_bool_def
  call_text_def

subsection \<open>Every step only appends to the calls and the output\<close>

lemma grows_refl [simp]: "grows st st"
  by (simp add: grows_def)

lemma grows_trans: "grows a b \<Longrightarrow> grows b c \<Longrightarrow> grows a c"
  unfolding grows_def by (meson prefix_order.trans)

lemma grows_emit [simp]: "grows st (emit ev st)"
  by (simp add: grows_def emit_def)

lemma grows_prints [simp]:
  "grows st (print_header m st)" "grows st (print_success m st)" "grows st (print_warning m st)"
  "grows st (print_error m st)" "grows st (print_info m st)" "grows st (print_plain m st)"
  by (simp_all add: grows_def io_defs)

lemma grows_calls [simp]:
  "grows st (snd (call_unit w c st))" "grows st (snd (call_names w c st))"
  "grows st (snd (call_describe w c st))" "grows st (snd (call_bool w c st))"
  "grows st (snd (call_text w c st))"
  by (simp_all add: grows_def io_defs)

lemma grows_fold: "(\<And>x s. grows s (f x s)) \<Longrightarrow> grows st (fold f xs st)"
proof (induction xs arbitrary: st)
  case Nil
  show ?case by simp
next
  case (Cons x xs)
  have a: "grows st (f x st)" by (rule Cons.prems)
  have b: "grows (f x st) (fold f xs (f x st))" by (rule Cons.IH) (rule Cons.prems)
  from grows_trans [OF a b] show ?case by simp
qed

lemma grows_step: "grows a b \<Longrightarrow> grows st a \<Longrightarrow> grows st b"
  by (rule grows_trans)

lemma grows_more [simp]:
  "grows st (s\<lparr>buckets_to_delete := x\<rparr>) = grows st s"
  "grows st (s\<lparr>log_groups_to_delete := x\<rparr>) = grows st s"
  "grows st (s\<lparr>stacks_deleted := x\<rparr>) = grows st s"
  "grows st (s\<lparr>buckets_emptied := x\<rparr>) = grows st s"
  "grows st (s\<lparr>log_groups_deleted := x\<rparr>) = grows st s"
  "grows st (s\<lparr>errors := x\<rparr>) = grows st s"
  by (simp_all add: grows_def)

lemma fold_emit:
  "fold (\<lambda>x. emit (g x)) xs st = st\<lparr>out := out st @ map g xs\<rparr>"
  by (induction xs arbitrary: st) (simp_all add: emit_def)

lemma fold_print_plain:
  "fold print_plain xs st = st\<lparr>out := out st @ map (Print PLAIN) xs\<rparr>"
  by (induction xs arbitrary: st) (simp_all add: print_plain_def emit_def)

lemma grows_discover_buckets: "grows st (discover_buckets self w st)"
  by (simp add: discover_buckets_def io_defs(2-) fold_emit emit_def grows_def Let_def split: sum.splits)

lemma grows_collect_log_groups: "grows st (snd (collect_log_groups w env ps st))"
proof (induction ps arbitrary: st)
  case Nil
  show ?case by simp
next
  case (Cons p ps)
  show ?case
  proof (cases "w_names w (calls st) (DescribeLogGroups p)")
    case (Inl e)
    then show ?thesis by (simp add: io_defs grows_def)
  next
    case (Inr names)
    let ?st1 = "st\<lparr>calls := calls st @ [DescribeLogGroups p],
       log_groups_to_delete := log_groups_to_delete st @ filter (contains env) names\<rparr>"
    have a: "grows st ?st1" by (simp add: grows_def)
    have b: "grows ?st1 (snd (collect_log_groups w env ps ?st1))" by (rule Cons.IH)
    from grows_trans [OF a b] Inr show ?thesis by (simp add: io_defs)
  qed
qed

lemma grows_discover_log_groups: "grows st (discover_log_groups self w st)"
proof -
  let ?st1 = "(print_info ''Discovering CloudWatch log groups...'' st)\<lparr>log_groups_to_delete := []\<rparr>"
  let ?ps = "[''/aws/glue/'' @ project_name, ''/aws/lambda/'' @ project_name,
              ''/aws/opensearch/'' @ project_name]"
  have a: "grows st ?st1" by simp
  have b: "grows ?st1 (snd (collect_log_groups w (cl_environment self) ?ps ?st1))"
    by (rule grows_collect_log_groups)
  obtain r st2 where c: "collect_log_groups w (cl_environment self) ?ps ?st1 = (r, st2)"
    by (cases "collect_log_groups w (cl_environment self) ?ps ?st1")
  from grows_trans [OF a b] c have d: "grows st st2" by simp
  have e: "grows st2 (discover_log_groups self w st)"
    using c by (cases r) (simp_all add: discover_log_groups_def Let_def)
  from grows_trans [OF d e] show ?thesis .
qed

lemma grows_check_stacks: "grows st (snd (check_stacks w ss st))"
proof (induction ss arbitrary: st)
  case Nil
  show ?case by simp
next
  case (Cons s ss)
  let ?st1 = "st\<lparr>calls := calls st @ [DescribeStacks s]\<rparr>"
  have a: "grows st ?st1" by (simp add: grows_def)
  show ?case
  proof (cases "w_describe w (calls st) (DescribeStacks s)")
    case (Inr d)
    have "grows ?st1 (print_plain (''  '' @ s @ '': '' @ StackStatus d) ?st1)" by simp
    from grows_trans [OF grows_trans [OF a this] Cons.IH] Inr show ?thesis
      by (simp add: call_describe_def)
  next
    case (Inl e)
    have "grows ?st1 (print_plain (''  '' @ s @ '': NOT FOUND'') ?st1)" by simp
    from grows_trans [OF grows_trans [OF a this] Cons.IH] Inl a show ?thesis
      by (simp add: call_describe_def)
  qed
qed

lemma grows_discover_resources: "grows st (snd (discover_resources self w st))"
proof -
  let ?b = "discover_buckets self w st"
  let ?l = "discover_log_groups self w ?b"
  have a: "grows st ?b" by (rule grows_discover_buckets)
  have b: "grows ?b ?l" by (rule grows_discover_log_groups)
  have c: "grows ?l (print_info ''Checking CloudFormation stacks...'' ?l)" by simp
  from grows_trans [OF grows_trans [OF grows_trans [OF a b] c] grows_check_stacks]
  show ?thesis by (simp add: discover_resources_def)
qed

lemma grows_empty_bucket: "grows st (empty_bucket self w b st)"
  by (simp add: empty_bucket_def io_defs grows_def Let_def split: option.splits)

lemma grows_empty_s3_buckets: "grows st (empty_s3_buckets self w st)"
  unfolding empty_s3_buckets_def by (rule grows_fold) (rule grows_empty_bucket)

lemma grows_delete_jobs: "grows st (snd (delete_jobs self w p js st))"
proof (induction js arbitrary: st)
  case Nil
  show ?case by simp
next
  case (Cons j js)
  show ?case
  proof (cases "prefix p j")
    case False
    then show ?thesis using Cons.IH by simp
  next
    case True
    show ?thesis
    proof (cases "dry_run self")
      case dry: True
      from grows_trans [OF _ Cons.IH, of st "print_plain (''  [DRY RUN] Would delete job: '' @ j) st"]
      show ?thesis using True dry by simp
    next
      case live: False
      let ?st1 = "st\<lparr>calls := calls st @ [DeleteJob j]\<rparr>"
      have a: "grows st ?st1" by (simp add: grows_def)
      show ?thesis
      proof (cases "w_unit w (calls st) (DeleteJob j)")
        case (Some e)
        then show ?thesis using True live a by (simp add: call_unit_def)
      next
        case None
        have "grows ?st1 (print_success (''  Deleted job: '' @ j) ?st1)" by simp
        from grows_trans [OF grows_trans [OF a this] Cons.IH] None True live show ?thesis
          by (simp add: call_unit_def)
      qed
    qed
  qed
qed

lemma grows_stop_crawler: "grows st (stop_crawler w c st)"
  by (simp add: stop_crawler_def io_defs grows_def split: option.splits)

lemma grows_delete_crawlers: "grows st (snd (delete_crawlers self w p cs st))"
proof (induction cs arbitrary: st)
  case Nil
  show ?case by simp
next
  case (Cons c cs)
  show ?case
  proof (cases "prefix p c")
    case False
    then show ?thesis using Cons.IH by simp
  next
    case True
    show ?thesis
    proof (cases "dry_run self")
      case dry: True
      from grows_trans [OF _ Cons.IH, of st "print_plain (''  [DRY RUN] Would delete crawler: '' @ c) st"]
      show ?thesis using True dry by simp
    next
      case live: False
      let ?st0 = "stop_crawler w c st"
      let ?st1 = "?st0\<lparr>calls := calls ?st0 @ [DeleteCrawler c]\<rparr>"
      have "grows ?st0 ?st1" by (simp add: grows_def)
      from grows_trans [OF grows_stop_crawler this] have a: "grows st ?st1" .
      show ?thesis
      proof (cases "w_unit w (calls ?st0) (DeleteCrawler c)")
        case (Some e)
        then show ?thesis using True live a by (simp add: call_unit_def)
      next
        case None
        have "grows ?st1 (print_success (''  Deleted crawler: '' @ c) ?st1)" by simp
        from grows_trans [OF grows_trans [OF a this] Cons.IH] None True live show ?thesis
          by (simp add: call_unit_def)
      qed
    qed
  qed
qed

lemma grows_delete_tables: "grows st (snd (delete_tables w db ts st))"
proof (induction ts arbitrary: st)
  case Nil
  show ?case by simp
next
  case (Cons t ts)
  let ?st1 = "st\<lparr>calls := calls st @ [DeleteTable db t]\<rparr>"
  have a: "grows st ?st1" by (simp add: grows_def)
  show ?case
  proof (cases "w_unit w (calls st) (DeleteTable db t)")
    case (Some e)
    then show ?thesis using a by (simp add: call_unit_def)
  next
    case None
    from grows_trans [OF a Cons.IH] None show ?thesis by (simp add: call_unit_def)
  qed
qed

lemma grows_cleanup_glue_jobs: "grows st (cleanup_glue_jobs self w st)"
proof -
  let ?st0 = "print_info ''Deleting Glue jobs...'' st"
  let ?st1 = "?st0\<lparr>calls := calls ?st0 @ [GetJobs]\<rparr>"
  have a: "grows st ?st1" by (simp add: grows_def io_defs)
  show ?thesis
  proof (cases "w_names w (calls ?st0) GetJobs")
    case (Inl e)
    have "grows ?st1 (print_warning (''Could not clean Glue jobs: '' @ exn_str e) ?st1)" by simp
    from grows_trans [OF a this] Inl show ?thesis
      by (simp add: cleanup_glue_jobs_def call_names_def)
  next
    case (Inr jobs)
    let ?p = "project_name @ ''-'' @ cl_environment self"
    obtain r st2 where d: "delete_jobs self w ?p jobs ?st1 = (r, st2)"
      by (cases "delete_jobs self w ?p jobs ?st1")
    have "grows ?st1 st2" using grows_delete_jobs [of ?st1 self w ?p jobs] d by simp
    from grows_trans [OF a this] have b: "grows st st2" .
    show ?thesis
    proof (cases r)
      case None
      then show ?thesis using Inr d b by (simp add: cleanup_glue_jobs_def call_names_def)
    next
      case (Some e)
      have "grows st2 (print_warning (''Could not clean Glue jobs: '' @ exn_str e) st2)" by simp
      from grows_trans [OF b this] Some Inr d show ?thesis
        by (simp add: cleanup_glue_jobs_def call_names_def)
    qed
  qed
qed

lemma grows_cleanup_glue_crawlers: "grows st (cleanup_glue_crawlers self w st)"
proof -
  let ?st0 = "print_info ''Deleting Glue crawlers...'' st"
  let ?st1 = "?st0\<lparr>calls := calls ?st0 @ [GetCrawlers]\<rparr>"
  have a: "grows st ?st1" by (simp add: grows_def io_defs)
  show ?thesis
  proof (cases "w_names w (calls ?st0) GetCrawlers")
    case (Inl e)
    have "grows ?st1 (print_warning (''Could not clean Glue crawlers: '' @ exn_str e) ?st1)" by simp
    from grows_trans [OF a this] Inl show ?thesis
      by (simp add: cleanup_glue_crawlers_def call_names_def)
  next
    case (Inr crawlers)
    let ?p = "project_name @ ''-'' @ cl_environment self"
    obtain r st2 where d: "delete_crawlers self w ?p crawlers ?st1 = (r, st2)"
      by (cases "delete_crawlers self w ?p crawlers ?st1")
    have "grows ?st1 st2" using grows_delete_crawlers [of ?st1 self w ?p crawlers] d by simp
    from grows_trans [OF a this] have b: "grows st st2" .
    show ?thesis
    proof (cases r)
      case None
      then show ?thesis using Inr d b by (simp add: cleanup_glue_crawlers_def call_names_def)
    next
      case (Some e)
      have "grows st2 (print_warning (''Could not clean Glue crawlers: '' @ exn_str e) st2)" by simp
      from grows_trans [OF b this] Some Inr d show ?thesis
        by (simp add: cleanup_glue_crawlers_def call_names_def)
    qed
  qed
qed

lemma grows_delete_all_tables: "grows st (delete_all_tables w db st)"
proof -
  let ?st1 = "st\<lparr>calls := calls st @ [GetTables db]\<rparr>"
  have a: "grows st ?st1" by (simp add: grows_def)
  show ?thesis
  proof (cases "w_names w (calls st) (GetTables db)")
    case (Inl e)
    then show ?thesis using a by (simp add: delete_all_tables_def call_names_def)
  next
    case (Inr tables)
    from grows_trans [OF a grows_delete_tables] Inr show ?thesis
      by (simp add: delete_all_tables_def call_names_def)
  qed
qed

lemma grows_cleanup_glue_database: "grows st (cleanup_glue_database self w st)"
proof (cases "dry_run self")
  case True
  then show ?thesis by (simp add: cleanup_glue_database_def Let_def grows_def io_defs)
next
  case False
  let ?db = "project_name @ ''_'' @ cl_environment self @ ''_db''"
  let ?st1 = "print_info (''Deleting Glue database: '' @ ?db) st"
  let ?st2 = "delete_all_tables w ?db ?st1"
  let ?st3 = "?st2\<lparr>calls := calls ?st2 @ [DeleteDatabase ?db]\<rparr>"
  have a: "grows st ?st1" by simp
  have b: "grows ?st1 ?st2" by (rule grows_delete_all_tables)
  have c: "grows ?st2 ?st3" by (simp add: grows_def)
  note d = grows_trans [OF grows_trans [OF a b] c]
  have e: "grows ?st3 (cleanup_glue_database self w st)"
    using False by (simp add: cleanup_glue_database_def Let_def call_unit_def split: option.splits)
  from grows_trans [OF d e] show ?thesis .
qed

lemma grows_cleanup_glue_resources: "grows st (cleanup_glue_resources self w st)"
  unfolding cleanup_glue_resources_def
  by (rule grows_trans [OF grows_trans [OF grows_cleanup_glue_jobs grows_cleanup_glue_crawlers]
        grows_cleanup_glue_database])

lemma grows_delete_stack: "grows st (delete_stack self w s st)"
  by (simp add: delete_stack_def stack_error_def io_defs grows_def Let_def
      split: option.splits sum.splits)

lemma grows_delete_stacks: "grows st (delete_stacks self w st)"
  unfolding delete_stacks_def by (rule grows_fold) (rule grows_delete_stack)

lemma grows_delete_log_group: "grows st (delete_log_group self w g st)"
  by (simp add: delete_log_group_def io_defs grows_def split: option.splits)

lemma grows_delete_bucket: "grows st (delete_bucket self w b st)"
  by (simp add: delete_bucket_def io_defs grows_def split: option.splits)

lemma grows_cleanup_orphaned_resources: "grows st (cleanup_orphaned_resources self w st)"
proof -
  let ?st0 = "print_info ''Deleting CloudWatch log groups...'' st"
  let ?st1 = "fold (delete_log_group self w) (log_groups_to_delete st) ?st0"
  let ?st2 = "print_info ''Cleaning orphaned S3 buckets...'' ?st1"
  have a: "grows st ?st0" by simp
  have b: "grows ?st0 ?st1" by (rule grows_fold) (rule grows_delete_log_group)
  have c: "grows ?st1 ?st2" by simp
  have d: "grows ?st2 (fold (delete_bucket self w) (buckets_to_delete ?st1) ?st2)"
    by (rule grows_fold) (rule grows_delete_bucket)
  from grows_trans [OF grows_trans [OF grows_trans [OF a b] c] d] show ?thesis
    by (simp add: cleanup_orphaned_resources_def Let_def)
qed

lemma print_section_eq:
  "print_section title items st =
     st\<lparr>out := out st @ Print PLAIN ([CHR 0x0A] @ title @ '' ('' @ str_of_nat (length items) @ ''):'')
                        # map (\<lambda>item. Print PLAIN (''  '' @ check_mark @ '' '' @ item)) items\<rparr>"
  by (simp add: print_section_def print_plain_def fold_emit emit_def)

lemma print_summary_fields [simp]:
  "calls (print_summary self st) = calls st"
  "discovered (print_summary self st) = discovered st"
  "summary (print_summary self st) = summary st"
  "prefix (out st) (out (print_summary self st))"
  by (simp_all add: print_summary_def print_section_eq print_plain_def fold_emit emit_def Let_def
      discovered_def summary_def)

lemma grows_print_summary: "grows st (print_summary self st)"
  by (simp add: grows_def)

lemma banner_fields [simp]:
  "calls (banner self w st) = calls st"
  "discovered (banner self w st) = discovered st"
  "summary (banner self w st) = summary st"
  "prefix (out st) (out (banner self w st))"
  by (simp_all add: banner_def io_defs discovered_def summary_def)

lemma deletion_warning_fields [simp]:
  "calls (deletion_warning self st) = calls st"
  "discovered (deletion_warning self st) = discovered st"
  "summary (deletion_warning self st) = summary st"
  "prefix (out st) (out (deletion_warning self st))"
  by (simp_all add: deletion_warning_def io_defs discovered_def summary_def)

subsection \<open>Discovery depends on the calls made so far only, and makes listing calls only\<close>

lemma discover_buckets_calls: "calls (discover_buckets self w st) = calls st @ [ListBuckets]"
  by (simp add: discover_buckets_def io_defs(2-) fold_emit emit_def Let_def split: sum.splits)

lemma discover_buckets_found:
  "buckets_to_delete (discover_buckets self w st) =
     (case w_names w (calls st) ListBuckets of
        Inr names \<Rightarrow> filter (prefix (project_name @ ''-'' @ cl_environment self)) names
      | Inl e \<Rightarrow> [])"
  by (simp add: discover_buckets_def io_defs(2-) fold_emit emit_def Let_def split: sum.splits)

lemma discover_buckets_summary: "summary (discover_buckets self w st) = summary st"
  by (simp add: discover_buckets_def io_defs(2-) fold_emit emit_def Let_def summary_def
      split: sum.splits)

lemma collect_log_groups_frame:
  "calls st = calls st' \<Longrightarrow> log_groups_to_delete st = log_groups_to_delete st' \<Longrightarrow>
   fst (collect_log_groups w env ps st) = fst (collect_log_groups w env ps st')
   \<and> calls (snd (collect_log_groups w env ps st)) = calls (snd (collect_log_groups w env ps st'))
   \<and> log_groups_to_delete (snd (collect_log_groups w env ps st))
       = log_groups_to_delete (snd (collect_log_groups w env ps st'))"
proof (induction ps arbitrary: st st')
  case Nil
  then show ?case by simp
next
  case (Cons p ps)
  show ?case
  proof (cases "w_names w (calls st) (DescribeLogGroups p)")
    case (Inl e)
    then show ?thesis using Cons.prems by (simp add: call_names_def)
  next
    case (Inr names)
    let ?u = "\<lambda>s. s\<lparr>calls := calls s @ [DescribeLogGroups p],
        log_groups_to_delete := log_groups_to_delete s @ filter (contains env) names\<rparr>"
    have "calls (?u st) = calls (?u st')" "log_groups_to_delete (?u st) = log_groups_to_delete (?u st')"
      using Cons.prems by simp_all
    from Cons.IH [OF this] Inr Cons.prems show ?thesis by (simp add: call_names_def)
  qed
qed

lemma collect_log_groups_kept:
  "buckets_to_delete (snd (collect_log_groups w env ps st)) = buckets_to_delete st
   \<and> summary (snd (collect_log_groups w env ps st)) = summary st"
  by (induction ps arbitrary: st) (auto simp: call_names_def summary_def split: sum.splits)

lemma collect_log_groups_listing:
  "list_all (\<lambda>c. \<not> is_mutating c) (calls st) \<Longrightarrow>
   list_all (\<lambda>c. \<not> is_mutating c) (calls (snd (collect_log_groups w env ps st)))"
  by (induction ps arbitrary: st) (auto simp: call_names_def split: sum.splits)

lemma discover_log_groups_unfold:
  assumes "collect_log_groups w (cl_environment self)
             [''/aws/glue/'' @ project_name, ''/aws/lambda/'' @ project_name,
              ''/aws/opensearch/'' @ project_name]
             ((print_info ''Discovering CloudWatch log groups...'' st)\<lparr>log_groups_to_delete := []\<rparr>)
           = (r, st2)"
  shows "discover_log_groups self w st =
     (case r of
        None \<Rightarrow> print_plain (''  Found '' @ str_of_nat (length (log_groups_to_delete st2))
                          @ '' log groups to delete'') st2
      | Some e \<Rightarrow> (print_warning (''Could not list log groups: '' @ exn_str e) st2)
               \<lparr>log_groups_to_delete := []\<rparr>)"
  unfolding discover_log_groups_def Let_def assms by (cases r) simp_all

lemma discover_log_groups_frame:
  assumes "calls st = calls st'" and "cl_environment self = cl_environment self'"
  shows "calls (discover_log_groups self w st) = calls (discover_log_groups self' w st')
       \<and> log_groups_to_delete (discover_log_groups self w st)
           = log_groups_to_delete (discover_log_groups self' w st')"
proof -
  let ?i = "\<lambda>s. (print_info ''Discovering CloudWatch log groups...'' s)\<lparr>log_groups_to_delete := []\<rparr>"
  let ?ps = "[''/aws/glue/'' @ project_name, ''/aws/lambda/'' @ project_name,
              ''/aws/opensearch/'' @ project_name]"
  have "calls (?i st) = calls (?i st')" "log_groups_to_delete (?i st) = log_groups_to_delete (?i st')"
    using assms(1) by (simp_all add: io_defs)
  note f = collect_log_groups_frame [OF this, of w "cl_environment self" ?ps]
  obtain r st2 where a: "collect_log_groups w (cl_environment self) ?ps (?i st) = (r, st2)"
    by (cases "collect_log_groups w (cl_environment self) ?ps (?i st)")
  obtain r' st2' where b: "collect_log_groups w (cl_environment self) ?ps (?i st') = (r', st2')"
    by (cases "collect_log_groups w (cl_environment self) ?ps (?i st')")
  from f a b have "r = r'" "calls st2 = calls st2'" "log_groups_to_delete st2 = log_groups_to_delete st2'"
    by simp_all
  moreover have b': "collect_log_groups w (cl_environment self') ?ps (?i st') = (r', st2')"
    unfolding assms(2) [symmetric] by (rule b)
  ultimately show ?thesis
    unfolding discover_log_groups_unfold [OF a] discover_log_groups_unfold [OF b']
    by (cases r') (simp_all add: io_defs)
qed

lemma discover_log_groups_kept:
  "buckets_to_delete (discover_log_groups self w st) = buckets_to_delete st
   \<and> summary (discover_log_groups self w st) = summary st"
proof -
  let ?i = "(print_info ''Discovering CloudWatch log groups...'' st)\<lparr>log_groups_to_delete := []\<rparr>"
  let ?ps = "[''/aws/glue/'' @ project_name, ''/aws/lambda/'' @ project_name,
              ''/aws/opensearch/'' @ project_name]"
  obtain r st2 where a: "collect_log_groups w (cl_environment self) ?ps ?i = (r, st2)"
    by (cases "collect_log_groups w (cl_environment self) ?ps ?i")
  from collect_log_groups_kept [of w "cl_environment self" ?ps ?i] a
  have "buckets_to_delete st2 = buckets_to_delete st" "summary st2 = summary st"
    by (simp_all add: io_defs summary_def)
  then show ?thesis
    unfolding discover_log_groups_unfold [OF a]
    by (cases r) (simp_all add: io_defs summary_def)
qed

lemma discover_log_groups_listing:
  assumes "list_all (\<lambda>c. \<not> is_mutating c) (calls st)"
  shows "list_all (\<lambda>c. \<not> is_mutating c) (calls (discover_log_groups self w st))"
proof -
  let ?i = "(print_info ''Discovering CloudWatch log groups...'' st)\<lparr>log_groups_to_delete := []\<rparr>"
  let ?ps = "[''/aws/glue/'' @ project_name, ''/aws/lambda/'' @ project_name,
              ''/aws/opensearch/'' @ project_name]"
  obtain r st2 where a: "collect_log_groups w (cl_environment self) ?ps ?i = (r, st2)"
    by (cases "collect_log_groups w (cl_environment self) ?ps ?i")
  have "list_all (\<lambda>c. \<not> is_mutating c) (calls ?i)" using assms by (simp add: io_defs)
  from collect_log_groups_listing [OF this, of w "cl_environment self" ?ps] a
  have "list_all (\<lambda>c. \<not> is_mutating c) (calls st2)" by simp
  then show ?thesis
    unfolding discover_log_groups_unfold [OF a]
    by (cases r) (simp_all add: io_defs)
qed

lemma check_stacks_frame:
  "calls st = calls st' \<Longrightarrow>
   fst (check_stacks w ss st) = fst (check_stacks w ss st')
   \<and> calls (snd (check_stacks w ss st)) = calls (snd (check_stacks w ss st'))"
proof (induction ss arbitrary: st st')
  case Nil
  then show ?case by simp
next
  case (Cons s ss)
  have eq: "\<And>m m'. calls (print_plain m (st\<lparr>calls := calls st @ [DescribeStacks s]\<rparr>))
      = calls (print_plain m' (st'\<lparr>calls := calls st' @ [DescribeStacks s]\<rparr>))"
    using Cons.prems by (simp add: io_defs)
  show ?case
  proof (cases "w_describe w (calls st) (DescribeStacks s)")
    case (Inr d)
    from Cons.IH [OF eq] Inr Cons.prems show ?thesis by (simp add: call_describe_def)
  next
    case (Inl e)
    from Cons.IH [OF eq] Inl Cons.prems show ?thesis by (simp add: call_describe_def)
  qed
qed

lemma check_stacks_kept:
  "discovered (snd (check_stacks w ss st)) = discovered st
   \<and> summary (snd (check_stacks w ss st)) = summary st"
  by (induction ss arbitrary: st)
     (auto simp: io_defs discovered_def summary_def split: sum.splits)

lemma check_stacks_listing:
  "list_all (\<lambda>c. \<not> is_mutating c) (calls st) \<Longrightarrow>
   list_all (\<lambda>c. \<not> is_mutating c) (calls (snd (check_stacks w ss st)))"
  by (induction ss arbitrary: st) (auto simp: io_defs split: sum.splits)

lemma discover_resources_frame:
  assumes "calls st = calls st'" and "cl_environment self = cl_environment self'"
  shows "fst (discover_resources self w st) = fst (discover_resources self' w st')
       \<and> calls (snd (discover_resources self w st)) = calls (snd (discover_resources self' w st'))
       \<and> discovered (snd (discover_resources self w st))
           = discovered (snd (discover_resources self' w st'))"
proof -
  let ?b = "discover_buckets self w st" and ?b' = "discover_buckets self' w st'"
  let ?l = "discover_log_groups self w ?b" and ?l' = "discover_log_groups self' w ?b'"
  let ?c = "print_info ''Checking CloudFormation stacks...'' ?l"
  let ?c' = "print_info ''Checking CloudFormation stacks...'' ?l'"
  have b: "calls ?b = calls ?b'" "buckets_to_delete ?b = buckets_to_delete ?b'"
    using assms by (simp_all add: discover_buckets_calls discover_buckets_found cong: sum.case_cong)
  note l = discover_log_groups_frame [OF b(1) assms(2), of w]
  have lb: "buckets_to_delete ?l = buckets_to_delete ?l'"
    using b(2) discover_log_groups_kept [of self w ?b] discover_log_groups_kept [of self' w ?b']
    by simp
  have c: "calls ?c = calls ?c'" using l by (simp add: io_defs)
  have d: "discovered ?c = discovered ?c'" using l lb by (simp add: io_defs discovered_def)
  have names: "stack_names self = stack_names self'" using assms(2) by (simp add: stack_names_def)
  from check_stacks_frame [OF c, of w "stack_names self"] d
    check_stacks_kept [of w "stack_names self" ?c] check_stacks_kept [of w "stack_names self" ?c']
  show ?thesis unfolding discover_resources_def names by simp
qed

lemma discover_resources_summary:
  "summary (snd (discover_resources self w st)) = summary st"
proof -
  let ?l = "discover_log_groups self w (discover_buckets self w st)"
  let ?c = "print_info ''Checking CloudFormation stacks...'' ?l"
  have "summary ?c = summary ?l" by (simp add: io_defs summary_def)
  also have "\<dots> = summary (discover_buckets self w st)"
    using discover_log_groups_kept [of self w "discover_buckets self w st"] by simp
  also have "\<dots> = summary st" by (rule discover_buckets_summary)
  finally have "summary ?c = summary st" .
  with check_stacks_kept [of w "stack_names self" ?c] show ?thesis
    by (simp add: discover_resources_def)
qed

lemma discover_resources_listing:
  assumes "list_all (\<lambda>c. \<not> is_mutating c) (calls st)"
  shows "list_all (\<lambda>c. \<not> is_mutating c) (calls (snd (discover_resources self w st)))"
proof -
  have "list_all (\<lambda>c. \<not> is_mutating c) (calls (discover_buckets self w st))"
    using assms by (simp add: discover_buckets_calls)
  from discover_log_groups_listing [OF this, of self w]
  have "list_all (\<lambda>c. \<not> is_mutating c)
     (calls (print_info ''Checking CloudFormation stacks...''
         (discover_log_groups self w (discover_buckets self w st))))"
    by (simp add: io_defs)
  from check_stacks_listing [OF this] show ?thesis by (simp add: discover_resources_def)
qed

subsection \<open>The later phases keep the discovered lists; the Glue phase keeps the summary\<close>

lemma fold_keeps: "(\<And>x s. g (f x s) = g s) \<Longrightarrow> g (fold f xs st) = g st"
  by (induction xs arbitrary: st) simp_all

lemma empty_bucket_discovered: "discovered (empty_bucket self w b st) = discovered st"
  by (simp add: empty_bucket_def io_defs discovered_def Let_def split: option.splits)

lemma empty_s3_buckets_discovered: "discovered (empty_s3_buckets self w st) = discovered st"
  unfolding empty_s3_buckets_def by (rule fold_keeps) (rule empty_bucket_discovered)

lemma delete_jobs_kept:
  "discovered (snd (delete_jobs self w p js st)) = discovered st
   \<and> summary (snd (delete_jobs self w p js st)) = summary st"
  by (induction js arbitrary: st)
     (auto simp: io_defs discovered_def summary_def split: option.splits)

lemma stop_crawler_kept:
  "discovered (stop_crawler w c st) = discovered st \<and> summary (stop_crawler w c st) = summary st"
  by (simp add: stop_crawler_def io_defs discovered_def summary_def split: option.splits)

lemma delete_crawlers_kept:
  "discovered (snd (delete_crawlers self w p cs st)) = discovered st
   \<and> summary (snd (delete_crawlers self w p cs st)) = summary st"
proof (induction cs arbitrary: st)
  case Nil
  show ?case by simp
next
  case (Cons c cs)
  have s: "discovered (stop_crawler w c st) = discovered st" "summary (stop_crawler w c st) = summary st"
    using stop_crawler_kept [of w c st] by simp_all
  have u: "\<And>x m. discovered (print_success m ((stop_crawler w c st)\<lparr>calls := x\<rparr>)) = discovered st"
    "\<And>x m. summary (print_success m ((stop_crawler w c st)\<lparr>calls := x\<rparr>)) = summary st"
    "\<And>x. discovered ((stop_crawler w c st)\<lparr>calls := x\<rparr>) = discovered st"
    "\<And>x. summary ((stop_crawler w c st)\<lparr>calls := x\<rparr>) = summary st"
    "\<And>m. discovered (print_plain m st) = discovered st"
    "\<And>m. summary (print_plain m st) = summary st"
    using s by (simp_all add: io_defs discovered_def summary_def)
  show ?case
    by (simp add: Cons.IH u call_unit_def split: option.splits)
qed

lemma delete_tables_kept:
  "discovered (snd (delete_tables w db ts st)) = discovered st
   \<and> summary (snd (delete_tables w db ts st)) = summary st"
  by (induction ts arbitrary: st)
     (auto simp: io_defs discovered_def summary_def split: option.splits)

lemma cleanup_glue_jobs_kept:
  "discovered (cleanup_glue_jobs self w st) = discovered st
   \<and> summary (cleanup_glue_jobs self w st) = summary st"
proof -
  let ?st0 = "print_info ''Deleting Glue jobs...'' st"
  let ?st1 = "?st0\<lparr>calls := calls ?st0 @ [GetJobs]\<rparr>"
  let ?p = "project_name @ ''-'' @ cl_environment self"
  have a: "discovered ?st1 = discovered st" "summary ?st1 = summary st"
    by (simp_all add: io_defs discovered_def summary_def)
  have w: "\<And>m s. discovered (print_warning m s) = discovered s"
    "\<And>m s. summary (print_warning m s) = summary s"
    by (simp_all add: io_defs discovered_def summary_def)
  show ?thesis
  proof (cases "w_names w (calls ?st0) GetJobs")
    case (Inl e)
    then show ?thesis using a by (simp add: cleanup_glue_jobs_def call_names_def w)
  next
    case (Inr jobs)
    obtain r st2 where d: "delete_jobs self w ?p jobs ?st1 = (r, st2)"
      by (cases "delete_jobs self w ?p jobs ?st1")
    from delete_jobs_kept [of self w ?p jobs ?st1] d a
    have "discovered st2 = discovered st" "summary st2 = summary st" by simp_all
    then show ?thesis
      using Inr d by (cases r) (simp_all add: cleanup_glue_jobs_def call_names_def w)
  qed
qed

lemma cleanup_glue_crawlers_kept:
  "discovered (cleanup_glue_crawlers self w st) = discovered st
   \<and> summary (cleanup_glue_crawlers self w st) = summary st"
proof -
  let ?st0 = "print_info ''Deleting Glue crawlers...'' st"
  let ?st1 = "?st0\<lparr>calls := calls ?st0 @ [GetCrawlers]\<rparr>"
  let ?p = "project_name @ ''-'' @ cl_environment self"
  have a: "discovered ?st1 = discovered st" "summary ?st1 = summary st"
    by (simp_all add: io_defs discovered_def summary_def)
  have w: "\<And>m s. discovered (print_warning m s) = discovered s"
    "\<And>m s. summary (print_warning m s) = summary s"
    by (simp_all add: io_defs discovered_def summary_def)
  show ?thesis
  proof (cases "w_names w (calls ?st0) GetCrawlers")
    case (Inl e)
    then show ?thesis using a by (simp add: cleanup_glue_crawlers_def call_names_def w)
  next
    case (Inr crawlers)
    obtain r st2 where d: "delete_crawlers self w ?p crawlers ?st1 = (r, st2)"
      by (cases "delete_crawlers self w ?p crawlers ?st1")
    from delete_crawlers_kept [of self w ?p crawlers ?st1] d a
    have "discovered st2 = discovered st" "summary st2 = summary st" by simp_all
    then show ?thesis
      using Inr d by (cases r) (simp_all add: cleanup_glue_crawlers_def call_names_def w)
  qed
qed

lemma delete_all_tables_kept:
  "discovered (delete_all_tables w db st) = discovered st
   \<and> summary (delete_all_tables w db st) = summary st"
proof -
  let ?st1 = "st\<lparr>calls := calls st @ [GetTables db]\<rparr>"
  have a: "discovered ?st1 = discovered st" "summary ?st1 = summary st"
    by (simp_all add: discovered_def summary_def)
  show ?thesis
  proof (cases "w_names w (calls st) (GetTables db)")
    case (Inl e)
    then show ?thesis using a by (simp add: delete_all_tables_def call_names_def)
  next
    case (Inr tables)
    from delete_tables_kept [of w db tables ?st1] a Inr show ?thesis
      by (simp add: delete_all_tables_def call_names_def)
  qed
qed

lemma cleanup_glue_database_kept:
  "discovered (cleanup_glue_database self w st) = discovered st
   \<and> summary (cleanup_glue_database self w st) = summary st"
proof (cases "dry_run self")
  case True
  then show ?thesis
    by (simp add: cleanup_glue_database_def Let_def io_defs discovered_def summary_def)
next
  case False
  let ?db = "project_name @ ''_'' @ cl_environment self @ ''_db''"
  let ?st1 = "print_info (''Deleting Glue database: '' @ ?db) st"
  define st2 where "st2 = delete_all_tables w ?db ?st1"
  have "discovered ?st1 = discovered st" "summary ?st1 = summary st"
    by (simp_all add: io_defs discovered_def summary_def)
  with delete_all_tables_kept [of w ?db ?st1]
  have a: "discovered st2 = discovered st" "summary st2 = summary st"
    unfolding st2_def by simp_all
  show ?thesis
    using False a unfolding cleanup_glue_database_def Let_def st2_def [symmetric]
    by (simp add: io_defs discovered_def summary_def split: option.splits)
qed

lemma cleanup_glue_resources_kept:
  "discovered (cleanup_glue_resources self w st) = discovered st
   \<and> summary (cleanup_glue_resources self w st) = summary st"
  unfolding cleanup_glue_resources_def
  using cleanup_glue_database_kept [of self w "cleanup_glue_crawlers self w (cleanup_glue_jobs self w st)"]
    cleanup_glue_crawlers_kept [of self w "cleanup_glue_jobs self w st"]
    cleanup_glue_jobs_kept [of self w st]
  by simp

lemma delete_stack_discovered: "discovered (delete_stack self w s st) = discovered st"
  by (simp add: delete_stack_def stack_error_def io_defs discovered_def Let_def
      split: option.splits sum.splits)

lemma delete_stacks_discovered: "discovered (delete_stacks self w st) = discovered st"
  unfolding delete_stacks_def by (rule fold_keeps) (rule delete_stack_discovered)

lemma delete_log_group_discovered: "discovered (delete_log_group self w g st) = discovered st"
  by (simp add: delete_log_group_def io_defs discovered_def split: option.splits)

lemma delete_bucket_discovered: "discovered (delete_bucket self w b st) = discovered st"
  by (simp add: delete_bucket_def io_defs discovered_def split: option.splits)

lemma cleanup_orphaned_resources_discovered:
  "discovered (cleanup_orphaned_resources self w st) = discovered st"
proof -
  let ?st0 = "print_info ''Deleting CloudWatch log groups...'' st"
  let ?st1 = "fold (delete_log_group self w) (log_groups_to_delete st) ?st0"
  let ?st2 = "print_info ''Cleaning orphaned S3 buckets...'' ?st1"
  have "discovered ?st1 = discovered ?st0"
    by (rule fold_keeps) (rule delete_log_group_discovered)
  then have a: "discovered ?st2 = discovered st" by (simp add: io_defs discovered_def)
  have "discovered (fold (delete_bucket self w) (buckets_to_delete ?st1) ?st2) = discovered ?st2"
    by (rule fold_keeps) (rule delete_bucket_discovered)
  with a show ?thesis by (simp add: cleanup_orphaned_resources_def Let_def)
qed

subsection \<open>Calls of a dry run\<close>

lemma dry_empty_s3_buckets: "dry_run self \<Longrightarrow> calls (empty_s3_buckets self w st) = calls st"
  unfolding empty_s3_buckets_def
  by (rule fold_keeps) (simp add: empty_bucket_def io_defs Let_def)

lemma dry_delete_jobs:
  "dry_run self \<Longrightarrow>
   fst (delete_jobs self w p js st) = None \<and> calls (snd (delete_jobs self w p js st)) = calls st"
  by (induction js arbitrary: st) (simp_all add: io_defs)

lemma dry_delete_crawlers:
  "dry_run self \<Longrightarrow>
   fst (delete_crawlers self w p cs st) = None
   \<and> calls (snd (delete_crawlers self w p cs st)) = calls st"
  by (induction cs arbitrary: st) (simp_all add: io_defs)

lemma dry_cleanup_glue_jobs:
  assumes "dry_run self"
  shows "calls (cleanup_glue_jobs self w st) = calls st @ [GetJobs]"
proof -
  let ?st0 = "print_info ''Deleting Glue jobs...'' st"
  let ?st1 = "?st0\<lparr>calls := calls ?st0 @ [GetJobs]\<rparr>"
  let ?p = "project_name @ ''-'' @ cl_environment self"
  show ?thesis
  proof (cases "w_names w (calls ?st0) GetJobs")
    case (Inl e)
    then show ?thesis by (simp add: cleanup_glue_jobs_def io_defs)
  next
    case (Inr jobs)
    obtain r st2 where d: "delete_jobs self w ?p jobs ?st1 = (r, st2)"
      by (cases "delete_jobs self w ?p jobs ?st1")
    from dry_delete_jobs [OF assms, of w ?p jobs ?st1] d
    have "r = None" "calls st2 = calls st @ [GetJobs]" by (simp_all add: io_defs)
    then show ?thesis using Inr d by (simp add: cleanup_glue_jobs_def call_names_def)
  qed
qed

lemma dry_cleanup_glue_crawlers:
  assumes "dry_run self"
  shows "calls (cleanup_glue_crawlers self w st) = calls st @ [GetCrawlers]"
proof -
  let ?st0 = "print_info ''Deleting Glue crawlers...'' st"
  let ?st1 = "?st0\<lparr>calls := calls ?st0 @ [GetCrawlers]\<rparr>"
  let ?p = "project_name @ ''-'' @ cl_environment self"
  show ?thesis
  proof (cases "w_names w (calls ?st0) GetCrawlers")
    case (Inl e)
    then show ?thesis by (simp add: cleanup_glue_crawlers_def io_defs)
  next
    case (Inr crawlers)
    obtain r st2 where d: "delete_crawlers self w ?p crawlers ?st1 = (r, st2)"
      by (cases "delete_crawlers self w ?p crawlers ?st1")
    from dry_delete_crawlers [OF assms, of w ?p crawlers ?st1] d
    have "r = None" "calls st2 = calls st @ [GetCrawlers]" by (simp_all add: io_defs)
    then show ?thesis using Inr d by (simp add: cleanup_glue_crawlers_def call_names_def)
  qed
qed

lemma dry_cleanup_glue_resources:
  assumes "dry_run self"
  shows "calls (cleanup_glue_resources self w st) = calls st @ [GetJobs, GetCrawlers]"
proof -
  have "calls (cleanup_glue_database self w (cleanup_glue_crawlers self w (cleanup_glue_jobs self w st)))
      = calls (cleanup_glue_crawlers self w (cleanup_glue_jobs self w st))"
    using assms by (simp add: cleanup_glue_database_def Let_def io_defs)
  then show ?thesis
    unfolding cleanup_glue_resources_def
    by (simp add: dry_cleanup_glue_crawlers [OF assms] dry_cleanup_glue_jobs [OF assms])
qed

lemma dry_delete_stacks: "dry_run self \<Longrightarrow> calls (delete_stacks self w st) = calls st"
  unfolding delete_stacks_def
  by (rule fold_keeps) (simp add: delete_stack_def io_defs Let_def)

lemma dry_cleanup_orphaned_resources:
  assumes "dry_run self"
  shows "calls (cleanup_orphaned_resources self w st) = calls st"
proof -
  let ?st0 = "print_info ''Deleting CloudWatch log groups...'' st"
  let ?st1 = "fold (delete_log_group self w) (log_groups_to_delete st) ?st0"
  let ?st2 = "print_info ''Cleaning orphaned S3 buckets...'' ?st1"
  have "calls ?st1 = calls ?st0"
    using assms by (intro fold_keeps) (simp add: delete_log_group_def io_defs)
  then have a: "calls ?st2 = calls st" by (simp add: io_defs)
  have "calls (fold (delete_bucket self w) (buckets_to_delete ?st1) ?st2) = calls ?st2"
    using assms by (intro fold_keeps) (simp add: delete_bucket_def io_defs)
  with a show ?thesis by (simp add: cleanup_orphaned_resources_def Let_def)
qed

subsection \<open>The run as a whole\<close>

lemma run_phases_aborted:
  "discover_resources self w (print_header ''PHASE 1: Resource Discovery'' st) = (Some e, d) \<Longrightarrow>
   run_phases self w st = (Some e, print_error (''Cleanup failed: '' @ exn_str e) d)"
  unfolding run_phases_def by simp

lemma run_phases_completed:
  "discover_resources self w (print_header ''PHASE 1: Resource Discovery'' st) = (None, d) \<Longrightarrow>
   run_phases self w st =
     (None, print_summary self (print_header ''CLEANUP SUMMARY''
        (cleanup_orphaned_resources self w (print_header ''PHASE 5: Cleanup Orphaned Resources''
          (delete_stacks self w (print_header ''PHASE 4: Delete CloudFormation Stacks''
            (cleanup_glue_resources self w (print_header ''PHASE 3: Clean Glue Resources''
              (empty_s3_buckets self w (print_header ''PHASE 2: Empty S3 Buckets'' d))))))))))"
  unfolding run_phases_def Let_def by simp

lemma grows_run_phases:
  "grows (print_header ''PHASE 1: Resource Discovery'' st) (snd (run_phases self w st))"
proof -
  let ?h = "print_header ''PHASE 1: Resource Discovery'' st"
  obtain r d where d: "discover_resources self w ?h = (r, d)"
    by (cases "discover_resources self w ?h")
  have g: "grows ?h d" using grows_discover_resources [of ?h self w] d by simp
  show ?thesis
  proof (cases r)
    case (Some e)
    have "grows d (print_error (''Cleanup failed: '' @ exn_str e) d)" by simp
    from grows_trans [OF g this] show ?thesis
      using d Some by (simp only: run_phases_aborted snd_conv)
  next
    case None
    let ?s2 = "empty_s3_buckets self w (print_header ''PHASE 2: Empty S3 Buckets'' d)"
    let ?s3 = "cleanup_glue_resources self w (print_header ''PHASE 3: Clean Glue Resources'' ?s2)"
    let ?s4 = "delete_stacks self w (print_header ''PHASE 4: Delete CloudFormation Stacks'' ?s3)"
    let ?s5 = "cleanup_orphaned_resources self w (print_header ''PHASE 5: Cleanup Orphaned Resources'' ?s4)"
    let ?s6 = "print_summary self (print_header ''CLEANUP SUMMARY'' ?s5)"
    have h: "\<And>m s. grows s (print_header m s)" by simp
    have 2: "grows d ?s2" by (rule grows_trans [OF h grows_empty_s3_buckets])
    have 3: "grows ?s2 ?s3" by (rule grows_trans [OF h grows_cleanup_glue_resources])
    have 4: "grows ?s3 ?s4" by (rule grows_trans [OF h grows_delete_stacks])
    have 5: "grows ?s4 ?s5" by (rule grows_trans [OF h grows_cleanup_orphaned_resources])
    have 6: "grows ?s5 ?s6" by (rule grows_trans [OF h grows_print_summary])
    from grows_trans [OF grows_trans [OF grows_trans [OF grows_trans [OF grows_trans [OF g 2] 3] 4] 5] 6]
    show ?thesis using d None by (simp only: run_phases_completed snd_conv)
  qed
qed

lemma run_phases_discovered:
  "discovered (snd (run_phases self w st))
     = discovered (snd (discover_resources self w (print_header ''PHASE 1: Resource Discovery'' st)))"
proof -
  let ?h = "print_header ''PHASE 1: Resource Discovery'' st"
  obtain r d where d: "discover_resources self w ?h = (r, d)"
    by (cases "discover_resources self w ?h")
  have p: "\<And>m s. discovered (emit m s) = discovered s"
    by (simp add: emit_def discovered_def)
  show ?thesis
  proof (cases r)
    case (Some e)
    then show ?thesis using d by (simp only: run_phases_aborted snd_conv print_error_def p)
  next
    case None
    then show ?thesis using d
      by (simp only: run_phases_completed snd_conv print_header_def p print_summary_fields
          cleanup_orphaned_resources_discovered delete_stacks_discovered
          cleanup_glue_resources_kept empty_s3_buckets_discovered)
  qed
qed

lemma dry_run_phases_calls:
  assumes "dry_run self"
  shows "calls (snd (run_phases self w st))
     = calls (snd (discover_resources self w (print_header ''PHASE 1: Resource Discovery'' st)))
       @ (if fst (discover_resources self w (print_header ''PHASE 1: Resource Discovery'' st)) = None
          then [GetJobs, GetCrawlers] else [])"
proof -
  let ?h = "print_header ''PHASE 1: Resource Discovery'' st"
  obtain r d where d: "discover_resources self w ?h = (r, d)"
    by (cases "discover_resources self w ?h")
  have p: "\<And>m s. calls (emit m s) = calls s"
    by (simp add: emit_def)
  show ?thesis
  proof (cases r)
    case (Some e)
    then show ?thesis using d by (simp add: run_phases_aborted print_error_def p)
  next
    case None
    have "calls (snd (run_phases self w st)) = calls d @ [GetJobs, GetCrawlers]"
      using d None
      by (simp only: run_phases_completed snd_conv print_header_def p print_summary_fields
          dry_cleanup_orphaned_resources [OF assms] dry_delete_stacks [OF assms]
          dry_cleanup_glue_resources [OF assms] dry_empty_s3_buckets [OF assms])
    then show ?thesis using d None by simp
  qed
qed

lemma grows_from_discovery:
  "grows (snd (discover_resources self w (print_header ''PHASE 1: Resource Discovery'' st)))
         (snd (run_phases self w st))"
proof -
  let ?h = "print_header ''PHASE 1: Resource Discovery'' st"
  obtain r d where d: "discover_resources self w ?h = (r, d)"
    by (cases "discover_resources self w ?h")
  show ?thesis
  proof (cases r)
    case (Some e)
    have "grows d (print_error (''Cleanup failed: '' @ exn_str e) d)" by simp
    then show ?thesis
      using d Some by (simp only: run_phases_aborted snd_conv)
  next
    case None
    let ?s2 = "empty_s3_buckets self w (print_header ''PHASE 2: Empty S3 Buckets'' d)"
    let ?s3 = "cleanup_glue_resources self w (print_header ''PHASE 3: Clean Glue Resources'' ?s2)"
    let ?s4 = "delete_stacks self w (print_header ''PHASE 4: Delete CloudFormation Stacks'' ?s3)"
    let ?s5 = "cleanup_orphaned_resources self w (print_header ''PHASE 5: Cleanup Orphaned Resources'' ?s4)"
    let ?s6 = "print_summary self (print_header ''CLEANUP SUMMARY'' ?s5)"
    have h: "\<And>m s. grows s (print_header m s)" by simp
    have 2: "grows d ?s2" by (rule grows_trans [OF h grows_empty_s3_buckets])
    have 3: "grows ?s2 ?s3" by (rule grows_trans [OF h grows_cleanup_glue_resources])
    have 4: "grows ?s3 ?s4" by (rule grows_trans [OF h grows_delete_stacks])
    have 5: "grows ?s4 ?s5" by (rule grows_trans [OF h grows_cleanup_orphaned_resources])
    have 6: "grows ?s5 ?s6" by (rule grows_trans [OF h grows_print_summary])
    from grows_trans [OF grows_trans [OF grows_trans [OF grows_trans [OF 2 3] 4] 5] 6]
    show ?thesis using d None by (simp only: run_phases_completed snd_conv)
  qed
qed

lemma cleanup_unconfirmed:
  "force \<or> dry_run self \<Longrightarrow>
   cleanup self w force typed st = run_phases self w (banner self w st)"
  by (auto simp: cleanup_def Let_def)

lemma cleanup_confirmed:
  "\<not> force \<Longrightarrow> \<not> dry_run self \<Longrightarrow> typed = cl_environment self \<Longrightarrow>
   cleanup self w force typed st =
     run_phases self w (emit (Prompt (confirmation_prompt self))
                          (deletion_warning self (banner self w st)))"
  by (simp add: cleanup_def Let_def)

lemma cleanup_cancelled:
  "\<not> force \<Longrightarrow> \<not> dry_run self \<Longrightarrow> typed \<noteq> cl_environment self \<Longrightarrow>
   cleanup self w force typed st =
     (None, print_warning ''Cleanup cancelled''
              (emit (Prompt (confirmation_prompt self))
                 (deletion_warning self (banner self w st))))"
  by (simp add: cleanup_def Let_def)

lemma delete_jobs_append:
  "delete_jobs self w p (xs @ ys) st =
     (case fst (delete_jobs self w p xs st) of
        None \<Rightarrow> delete_jobs self w p ys (snd (delete_jobs self w p xs st))
      | Some e \<Rightarrow> delete_jobs self w p xs st)"
proof (induction xs arbitrary: st)
  case Nil
  show ?case by simp
next
  case (Cons x xs)
  show ?case
  proof (cases "w_unit w (calls st) (DeleteJob x)")
    case None
    then show ?thesis by (simp add: Cons.IH call_unit_def cong: option.case_cong)
  next
    case (Some e)
    then show ?thesis by (simp add: Cons.IH call_unit_def cong: option.case_cong)
  qed
qed

lemma delete_crawlers_append:
  "delete_crawlers self w p (xs @ ys) st =
     (case fst (delete_crawlers self w p xs st) of
        None \<Rightarrow> delete_crawlers self w p ys (snd (delete_crawlers self w p xs st))
      | Some e \<Rightarrow> delete_crawlers self w p xs st)"
proof (induction xs arbitrary: st)
  case Nil
  show ?case by simp
next
  case (Cons x xs)
  show ?case
  proof (cases "w_unit w (calls (stop_crawler w x st)) (DeleteCrawler x)")
    case None
    then show ?thesis by (simp add: Cons.IH call_unit_def cong: option.case_cong)
  next
    case (Some e)
    then show ?thesis by (simp add: Cons.IH call_unit_def cong: option.case_cong)
  qed
qed

lemma discovery_lists_buckets:
  "ListBuckets \<in> set (calls (snd (discover_resources self w st)))"
proof -
  let ?b = "discover_buckets self w st"
  let ?l = "discover_log_groups self w ?b"
  let ?c = "print_info ''Checking CloudFormation stacks...'' ?l"
  have "grows ?b ?l" by (rule grows_discover_log_groups)
  moreover have "grows ?l ?c" by simp
  ultimately have "grows ?b ?c" by (rule grows_trans)
  from grows_trans [OF this grows_check_stacks [of ?c w "stack_names self"]]
  have "prefix (calls ?b) (calls (snd (discover_resources self w st)))"
    by (simp add: grows_def discover_resources_def)
  then have "set (calls ?b) \<subseteq> set (calls (snd (discover_resources self w st)))"
    by (rule set_mono_prefix)
  then show ?thesis by (auto simp: discover_buckets_calls)
qed

lemma run_phases_started:
  "Print HEADER ''PHASE 1: Resource Discovery'' \<in> set (out (snd (run_phases self w st)))"
  "set (out st) \<subseteq> set (out (snd (run_phases self w st)))"
  "ListBuckets \<in> set (calls (snd (run_phases self w st)))"
proof -
  let ?h = "print_header ''PHASE 1: Resource Discovery'' st"
  have "prefix (out ?h) (out (snd (run_phases self w st)))"
    using grows_run_phases [of st self w] by (simp add: grows_def)
  then have s: "set (out ?h) \<subseteq> set (out (snd (run_phases self w st)))"
    by (rule set_mono_prefix)
  then show "Print HEADER ''PHASE 1: Resource Discovery'' \<in> set (out (snd (run_phases self w st)))"
    by (auto simp: print_header_def emit_def)
  from s show "set (out st) \<subseteq> set (out (snd (run_phases self w st)))"
    by (auto simp: print_header_def emit_def)
  have "prefix (calls (snd (discover_resources self w ?h))) (calls (snd (run_phases self w st)))"
    using grows_from_discovery [of self w st] by (simp add: grows_def)
  then have "set (calls (snd (discover_resources self w ?h))) \<subseteq> set (calls (snd (run_phases self w st)))"
    by (rule set_mono_prefix)
  with discovery_lists_buckets [of self w ?h]
  show "ListBuckets \<in> set (calls (snd (run_phases self w st)))" by blast
qed

subsection \<open>The claims about the resource cleaner\<close>

lemma before_discovery_calls:
  "calls (print_header m (banner self w st)) = calls st"
  "calls (print_header m (emit (Prompt p) (deletion_warning self (banner self w st)))) = calls st"
  by (simp_all add: print_header_def emit_def)

lemmas sample_defs = project_name_def initial_state_def sample_provider_def dev_cleaner_def
  io_defs Let_def

lemmas discover_defs = discover_resources_def discover_buckets_def discover_log_groups_def
  stack_names_def

lemma sample_discovery:
  "fst (discover_resources (dev_cleaner True) sample_provider initial_state) = None"
  "calls (snd (discover_resources (dev_cleaner True) sample_provider initial_state))
     = [ListBuckets, DescribeLogGroups ''/aws/glue/housing-market-intel'',
        DescribeLogGroups ''/aws/lambda/housing-market-intel'',
        DescribeLogGroups ''/aws/opensearch/housing-market-intel'',
        DescribeStacks ''housing-market-intel-dev-appflow'',
        DescribeStacks ''housing-market-intel-dev-main'']"
  "discovered (snd (discover_resources (dev_cleaner True) sample_provider initial_state))
     = ([''housing-market-intel-dev-raw''], [''/aws/glue/housing-market-intel-dev-etl''])"
  by (simp_all add: discover_defs sample_defs discovered_def)

lemma sample_dry_run:
  "cleanup (dev_cleaner True) sample_provider False typed initial_state
     = run_phases (dev_cleaner True) sample_provider
         (banner (dev_cleaner True) sample_provider initial_state)"
  "calls (snd (cleanup (dev_cleaner True) sample_provider False typed initial_state))
     = [ListBuckets, DescribeLogGroups ''/aws/glue/housing-market-intel'',
        DescribeLogGroups ''/aws/lambda/housing-market-intel'',
        DescribeLogGroups ''/aws/opensearch/housing-market-intel'',
        DescribeStacks ''housing-market-intel-dev-appflow'',
        DescribeStacks ''housing-market-intel-dev-main'', GetJobs, GetCrawlers]"
  "discovered (snd (cleanup (dev_cleaner True) sample_provider False typed initial_state))
     = ([''housing-market-intel-dev-raw''], [''/aws/glue/housing-market-intel-dev-etl''])"
proof -
  let ?C = "dev_cleaner True"
  let ?b = "banner ?C sample_provider initial_state"
  let ?h = "print_header ''PHASE 1: Resource Discovery'' ?b"
  have h1: "dry_run ?C" by (simp add: dev_cleaner_def)
  show run: "cleanup ?C sample_provider False typed initial_state = run_phases ?C sample_provider ?b"
    using h1 by (simp add: cleanup_unconfirmed)
  have "calls ?h = calls initial_state" by (rule before_discovery_calls)
  note f = discover_resources_frame [OF this refl, of ?C sample_provider]
  show "calls (snd (cleanup ?C sample_provider False typed initial_state))
     = [ListBuckets, DescribeLogGroups ''/aws/glue/housing-market-intel'',
        DescribeLogGroups ''/aws/lambda/housing-market-intel'',
        DescribeLogGroups ''/aws/opensearch/housing-market-intel'',
        DescribeStacks ''housing-market-intel-dev-appflow'',
        DescribeStacks ''housing-market-intel-dev-main'', GetJobs, GetCrawlers]"
    unfolding run dry_run_phases_calls [OF h1] using f by (simp add: sample_discovery)
  show "discovered (snd (cleanup ?C sample_provider False typed initial_state))
     = ([''housing-market-intel-dev-raw''], [''/aws/glue/housing-market-intel-dev-etl''])"
    unfolding run run_phases_discovered using f by (simp add: sample_discovery)
qed

text \<open>
  C3. With \<open>dry_run\<close> set, a teardown makes no mutating provider call (emptying a bucket,
  deleting or stopping a job, crawler, table, database, stack, log group or bucket), while
  its discovery phase makes the same listing calls and finds the same resource lists as a
  live run against the same provider.

  The calls of a dry run are exactly the calls of the discovery phase followed, when
  discovery does not raise, by the two listing calls of the Glue phase. The live run is
  any run without \<open>dry_run\<close> that gets past the confirmation (forced, or confirmed by the
  operator); both runs start from the same provider, that is from the same empty record
  of calls.
\<close>

theorem dry_run_no_mutating_call_same_discovery:
  assumes dry: "dry_run self"
    and proceeds: "force' \<or> typed' = cl_environment self"
  shows "no_mutation (snd (cleanup self w force typed initial_state))
       \<and> calls (snd (cleanup self w force typed initial_state))
           = calls (snd (discover_resources self w initial_state))
             @ (if fst (discover_resources self w initial_state) = None
                then [GetJobs, GetCrawlers] else [])
       \<and> prefix (calls (snd (discover_resources self w initial_state)))
                (calls (snd (cleanup (self\<lparr>dry_run := False\<rparr>) w force' typed' initial_state)))
       \<and> discovered (snd (cleanup self w force typed initial_state))
           = discovered (snd (cleanup (self\<lparr>dry_run := False\<rparr>) w force' typed' initial_state))"
proof -
  let ?live = "self\<lparr>dry_run := False\<rparr>"
  let ?D0 = "discover_resources self w initial_state"
  let ?h = "print_header ''PHASE 1: Resource Discovery'' (banner self w initial_state)"
  have env: "cl_environment self = cl_environment ?live" by simp
  \<comment> \<open>the dry run\<close>
  have run: "cleanup self w force typed initial_state = run_phases self w (banner self w initial_state)"
    using dry by (simp add: cleanup_unconfirmed)
  have "calls ?h = calls initial_state" by (rule before_discovery_calls)
  note f = discover_resources_frame [OF this refl, of self w]
  have c: "calls (snd (cleanup self w force typed initial_state))
      = calls (snd ?D0) @ (if fst ?D0 = None then [GetJobs, GetCrawlers] else [])"
    unfolding run dry_run_phases_calls [OF dry] using f by simp
  have "list_all (\<lambda>c. \<not> is_mutating c) (calls initial_state)"
    by (simp add: initial_state_def)
  from discover_resources_listing [OF this, of self w]
  have n: "no_mutation (snd (cleanup self w force typed initial_state))"
    unfolding no_mutation_def c by simp
  have d: "discovered (snd (cleanup self w force typed initial_state)) = discovered (snd ?D0)"
    unfolding run run_phases_discovered using f by simp
  \<comment> \<open>the live run\<close>
  obtain st' where live: "cleanup ?live w force' typed' initial_state = run_phases ?live w st'"
    and st': "calls (print_header ''PHASE 1: Resource Discovery'' st') = calls initial_state"
  proof (cases force')
    case True
    then have "cleanup ?live w force' typed' initial_state
        = run_phases ?live w (banner ?live w initial_state)"
      by (simp add: cleanup_unconfirmed)
    then show ?thesis using that before_discovery_calls(1) by blast
  next
    case False
    with proceeds have "typed' = cl_environment ?live" by simp
    with False have "cleanup ?live w force' typed' initial_state
        = run_phases ?live w (emit (Prompt (confirmation_prompt ?live))
                                (deletion_warning ?live (banner ?live w initial_state)))"
      by (simp add: cleanup_confirmed)
    then show ?thesis using that before_discovery_calls(2) by blast
  qed
  note g = discover_resources_frame [OF st' env [symmetric], of w]
  have "grows (snd (discover_resources ?live w (print_header ''PHASE 1: Resource Discovery'' st')))
              (snd (cleanup ?live w force' typed' initial_state))"
    unfolding live by (rule grows_from_discovery)
  then have p: "prefix (calls (snd ?D0)) (calls (snd (cleanup ?live w force' typed' initial_state)))"
    using g by (simp add: grows_def)
  have "discovered (snd (cleanup ?live w force' typed' initial_state)) = discovered (snd ?D0)"
    unfolding live run_phases_discovered using g by simp
  with n c p d show ?thesis by simp
qed

theorem dry_run_no_mutating_call_same_discovery_witness:
  "dry_run (dev_cleaner True)
   \<and> (True \<or> '''' = cl_environment (dev_cleaner True))
   \<and> no_mutation (snd (cleanup (dev_cleaner True) sample_provider False ''no'' initial_state))
   \<and> calls (snd (cleanup (dev_cleaner True) sample_provider False ''no'' initial_state))
       = [ListBuckets, DescribeLogGroups ''/aws/glue/housing-market-intel'',
          DescribeLogGroups ''/aws/lambda/housing-market-intel'',
          DescribeLogGroups ''/aws/opensearch/housing-market-intel'',
          DescribeStacks ''housing-market-intel-dev-appflow'',
          DescribeStacks ''housing-market-intel-dev-main'', GetJobs, GetCrawlers]
   \<and> discovered (snd (cleanup ((dev_cleaner True)\<lparr>dry_run := False\<rparr>) sample_provider True ''''
                          initial_state))
       = ([''housing-market-intel-dev-raw''], [''/aws/glue/housing-market-intel-dev-etl''])
   \<and> discovered (snd (cleanup (dev_cleaner True) sample_provider False ''no'' initial_state))
       = ([''housing-market-intel-dev-raw''], [''/aws/glue/housing-market-intel-dev-etl''])"
proof -
  have h1: "dry_run (dev_cleaner True)" by (simp add: dev_cleaner_def)
  have h2: "True \<or> '''' = cl_environment (dev_cleaner True)" by simp
  note t = dry_run_no_mutating_call_same_discovery
    [OF h1 h2, of sample_provider False "''no''", unfolded sample_discovery]
  note d = sample_dry_run(3) [of "''no''"]
  from t d h1 show ?thesis by simp
qed


text \<open>
  C7, as stated: whenever the force flag is not set, the confirmation is requested and a
  typed input that differs from the environment name makes \<open>cleanup\<close> return without
  executing any phase. With \<open>dry_run\<close> set this fails: the run does not depend on what
  the operator would type, and with an input that differs from the environment name all
  phases run, here with eight provider calls.
\<close>

theorem dry_run_skips_confirmation:
  "''no'' \<noteq> cl_environment (dev_cleaner True)
   \<and> cleanup (dev_cleaner True) sample_provider False ''no'' initial_state
       = cleanup (dev_cleaner True) sample_provider False ''dev'' initial_state
   \<and> Print HEADER ''PHASE 1: Resource Discovery''
       \<in> set (out (snd (cleanup (dev_cleaner True) sample_provider False ''no'' initial_state)))
   \<and> calls (snd (cleanup (dev_cleaner True) sample_provider False ''no'' initial_state))
       = [ListBuckets, DescribeLogGroups ''/aws/glue/housing-market-intel'',
          DescribeLogGroups ''/aws/lambda/housing-market-intel'',
          DescribeLogGroups ''/aws/opensearch/housing-market-intel'',
          DescribeStacks ''housing-market-intel-dev-appflow'',
          DescribeStacks ''housing-market-intel-dev-main'', GetJobs, GetCrawlers]"
proof -
  have "''no'' \<noteq> cl_environment (dev_cleaner True)" by (simp add: dev_cleaner_def)
  moreover have "cleanup (dev_cleaner True) sample_provider False ''no'' initial_state
       = cleanup (dev_cleaner True) sample_provider False ''dev'' initial_state"
    by (simp only: sample_dry_run(1))
  moreover have "Print HEADER ''PHASE 1: Resource Discovery''
       \<in> set (out (snd (cleanup (dev_cleaner True) sample_provider False ''no'' initial_state)))"
    unfolding sample_dry_run(1) by (rule run_phases_started)
  ultimately show ?thesis using sample_dry_run(2) [of "''no''"] by simp
qed

text \<open>
  C7, amended: for every teardown invocation in which neither the force flag nor
  \<open>dry_run\<close> is set, the confirmation is requested and requires the operator to type the
  literal environment name; if the typed input differs from the environment name,
  \<open>cleanup\<close> returns without executing any phase, leaving the provider state unchanged.

  Returning without a phase: no exception, no provider call, the discovered lists and
  the summary as they were, and after the warning text only the prompt and the
  cancellation line are printed. With the environment name typed, the phases start.
\<close>

theorem confirmation_gate:
  assumes "\<not> force" and "\<not> dry_run self"
  shows "Prompt (confirmation_prompt self) \<in> set (out (snd (cleanup self w force typed st)))
       \<and> (typed \<noteq> cl_environment self \<longrightarrow>
            fst (cleanup self w force typed st) = None
          \<and> calls (snd (cleanup self w force typed st)) = calls st
          \<and> discovered (snd (cleanup self w force typed st)) = discovered st
          \<and> summary (snd (cleanup self w force typed st)) = summary st
          \<and> out (snd (cleanup self w force typed st))
              = out (deletion_warning self (banner self w st))
                @ [Prompt (confirmation_prompt self), Print WARNING ''Cleanup cancelled''])
       \<and> (typed = cl_environment self \<longrightarrow>
            Print HEADER ''PHASE 1: Resource Discovery''
              \<in> set (out (snd (cleanup self w force typed st)))
          \<and> ListBuckets \<in> set (calls (snd (cleanup self w force typed st))))"
proof (cases "typed = cl_environment self")
  case False
  let ?st2 = "emit (Prompt (confirmation_prompt self)) (deletion_warning self (banner self w st))"
  have c: "cleanup self w force typed st = (None, print_warning ''Cleanup cancelled'' ?st2)"
    using assms False by (rule cleanup_cancelled)
  have "discovered (print_warning ''Cleanup cancelled'' ?st2) = discovered (deletion_warning self (banner self w st))"
    "summary (print_warning ''Cleanup cancelled'' ?st2) = summary (deletion_warning self (banner self w st))"
    by (simp_all add: print_warning_def emit_def discovered_def summary_def)
  then have "discovered (print_warning ''Cleanup cancelled'' ?st2) = discovered st"
    "summary (print_warning ''Cleanup cancelled'' ?st2) = summary st"
    by simp_all
  moreover have "calls (print_warning ''Cleanup cancelled'' ?st2) = calls st"
    "out (print_warning ''Cleanup cancelled'' ?st2)
       = out (deletion_warning self (banner self w st))
         @ [Prompt (confirmation_prompt self), Print WARNING ''Cleanup cancelled'']"
    by (simp_all add: print_warning_def emit_def)
  ultimately show ?thesis using False unfolding c by simp
next
  case True
  let ?st2 = "emit (Prompt (confirmation_prompt self)) (deletion_warning self (banner self w st))"
  have c: "cleanup self w force typed st = run_phases self w ?st2"
    using assms True by (rule cleanup_confirmed)
  have "Prompt (confirmation_prompt self) \<in> set (out ?st2)" by (simp add: emit_def)
  with run_phases_started(2) [of ?st2 self w]
  have "Prompt (confirmation_prompt self) \<in> set (out (snd (run_phases self w ?st2)))" by blast
  with True run_phases_started(1,3) [of self w ?st2] show ?thesis unfolding c by simp
qed

theorem confirmation_gate_witness:
  "\<not> False \<and> \<not> dry_run (dev_cleaner False)
   \<and> ''prod'' \<noteq> cl_environment (dev_cleaner False)
   \<and> Prompt (confirmation_prompt (dev_cleaner False))
       \<in> set (out (snd (cleanup (dev_cleaner False) sample_provider False ''prod'' initial_state)))
   \<and> fst (cleanup (dev_cleaner False) sample_provider False ''prod'' initial_state) = None
   \<and> calls (snd (cleanup (dev_cleaner False) sample_provider False ''prod'' initial_state)) = []
   \<and> summary (snd (cleanup (dev_cleaner False) sample_provider False ''prod'' initial_state))
       = ([], [], [], [])
   \<and> ''dev'' = cl_environment (dev_cleaner False)
   \<and> ListBuckets
       \<in> set (calls (snd (cleanup (dev_cleaner False) sample_provider False ''dev'' initial_state)))"
proof -
  have h1: "\<not> False" by simp
  have h2: "\<not> dry_run (dev_cleaner False)" by (simp add: dev_cleaner_def)
  have n: "''prod'' \<noteq> cl_environment (dev_cleaner False)"
    and y: "''dev'' = cl_environment (dev_cleaner False)"
    by (simp_all add: dev_cleaner_def)
  note a = confirmation_gate [OF h1 h2, of sample_provider "''prod''" initial_state]
  note b = confirmation_gate [OF h1 h2, of sample_provider "''dev''" initial_state]
  have i: "calls initial_state = []" "summary initial_state = ([], [], [], [])"
    by (simp_all add: initial_state_def summary_def)
  from a b n y h2 i show ?thesis by simp
qed

end
